theory Spec2Isabelle
  imports Main "HOL-Library.Sublist"
begin

section \<open>Values handled by the scraper\<close>

text \<open>
  \<^verbatim>\<open>scrape_tiktok_profile\<close> (src/app.py) works on the objects that \<^verbatim>\<open>json.loads\<close> and
  \<^verbatim>\<open>response.json()\<close> build: \<^verbatim>\<open>None\<close>, booleans, numbers, strings, lists and dicts.
  A dict is an association list in insertion order, read by its first binding of a key
  (a parsed dict has one binding per key). Numbers are Python's unbounded integers;
  floating-point numbers are outside the model.
\<close>

datatype json =
    JNull
  | JBool bool
  | JInt int
  | JStr string
  | JList "json list"
  | JObj "(string \<times> json) list"

text \<open>
  The exceptions the extraction code can meet, and the two that a call of the browser
  automation library ends in (its \<^verbatim>\<open>TimeoutError\<close> and any other error of its own); all of
  them are subclasses of \<^verbatim>\<open>Exception\<close>.
\<close>

datatype error =
  KeyError | TypeError | AttributeError | ValueError | TimeoutError | PlaywrightError

definition and_then :: "error + 'a \<Rightarrow> ('a \<Rightarrow> error + 'b) \<Rightarrow> error + 'b" where
  "and_then m f = (case m of Inl e \<Rightarrow> Inl e | Inr x \<Rightarrow> f x)"

text \<open>Truth value of an object in a condition (\<^verbatim>\<open>if x:\<close>, \<^verbatim>\<open>x and y\<close>).\<close>

fun truthy :: "json \<Rightarrow> bool" where
  "truthy JNull = False"
| "truthy (JBool b) = b"
| "truthy (JInt n) = (n \<noteq> 0)"
| "truthy (JStr s) = (s \<noteq> [])"
| "truthy (JList xs) = (xs \<noteq> [])"
| "truthy (JObj kvs) = (kvs \<noteq> [])"

text \<open>\<^verbatim>\<open>isinstance(x, dict)\<close>.\<close>

fun is_dict :: "json \<Rightarrow> bool" where
  "is_dict (JObj kvs) = True"
| "is_dict _ = False"

text \<open>\<^verbatim>\<open>x.get(k, d)\<close>: only a dict has the method; any other object raises AttributeError.\<close>

fun py_get :: "json \<Rightarrow> string \<Rightarrow> json \<Rightarrow> error + json" where
  "py_get (JObj kvs) k d = Inr (case map_of kvs k of None \<Rightarrow> d | Some v \<Rightarrow> v)"
| "py_get _ k d = Inl AttributeError"

text \<open>
  \<^verbatim>\<open>x[k]\<close> with a string key: a dict raises KeyError on a missing key; a list or a string
  wants an integer index, and the other objects are not subscriptable (TypeError).
\<close>

fun py_index :: "json \<Rightarrow> string \<Rightarrow> error + json" where
  "py_index (JObj kvs) k = (case map_of kvs k of None \<Rightarrow> Inl KeyError | Some v \<Rightarrow> Inr v)"
| "py_index _ k = Inl TypeError"

text \<open>
  \<^verbatim>\<open>k in x\<close> with a string \<^verbatim>\<open>k\<close>: a key of a dict, an element of a list, a substring of a
  string; the other objects are not iterable (TypeError).
\<close>

fun py_substr :: "string \<Rightarrow> string \<Rightarrow> bool" where
  "py_substr k [] = (k = [])"
| "py_substr k (c # cs) = (prefix k (c # cs) \<or> py_substr k cs)"

fun py_contains :: "string \<Rightarrow> json \<Rightarrow> error + bool" where
  "py_contains k (JObj kvs) = Inr (map_of kvs k \<noteq> None)"
| "py_contains k (JList xs) = Inr (JStr k \<in> set xs)"
| "py_contains k (JStr s) = Inr (py_substr k s)"
| "py_contains k _ = Inl TypeError"

text \<open>\<^verbatim>\<open>len(x)\<close>, used in the progress messages before each loop.\<close>

fun py_len :: "json \<Rightarrow> error + nat" where
  "py_len (JList xs) = Inr (length xs)"
| "py_len (JObj kvs) = Inr (length kvs)"
| "py_len (JStr s) = Inr (length s)"
| "py_len _ = Inl TypeError"

text \<open>
  \<^verbatim>\<open>for item in x\<close>: the elements of a list, the keys of a dict, the one-character
  strings of a string; the other objects are not iterable.
\<close>

fun py_iter :: "json \<Rightarrow> error + json list" where
  "py_iter (JList xs) = Inr xs"
| "py_iter (JObj kvs) = Inr (map (\<lambda>kv. JStr (fst kv)) kvs)"
| "py_iter (JStr s) = Inr (map (\<lambda>c. JStr [c]) s)"
| "py_iter _ = Inl TypeError"

subsection \<open>The identity set\<close>

text \<open>
  \<^verbatim>\<open>seen_ids\<close> is a Python set. Membership and insertion hash the object first: a list or
  a dict is unhashable (TypeError). Equal hashable objects are one element of the set, and
  Python's \<^verbatim>\<open>True\<close> and \<^verbatim>\<open>False\<close> are equal to 1 and 0.
\<close>

datatype key = KNone | KNum int | KStr string

fun py_hash :: "json \<Rightarrow> error + key" where
  "py_hash JNull = Inr KNone"
| "py_hash (JBool b) = Inr (KNum (if b then 1 else 0))"
| "py_hash (JInt n) = Inr (KNum n)"
| "py_hash (JStr s) = Inr (KStr s)"
| "py_hash (JList xs) = Inl TypeError"
| "py_hash (JObj kvs) = Inl TypeError"

section \<open>The environment of a run\<close>

text \<open>
  Three things come from outside the program text: \<^verbatim>\<open>pd.to_datetime(x, unit='s')\<close>, which
  returns a timestamp or raises; the text that an f-string gives for an object that is not
  a string; and the wall clock, read once for each record that is yielded
  (\<open>now env n\<close> is the reading for the record yielded after \<open>n\<close> others).
\<close>

record 'ts env =
  to_datetime :: "json \<Rightarrow> error + 'ts"
  str_of :: "json \<Rightarrow> string"
  now :: "nat \<Rightarrow> string"

definition py_format :: "'ts env \<Rightarrow> json \<Rightarrow> string" where
  "py_format env v = (case v of JStr s \<Rightarrow> s | _ \<Rightarrow> str_of env v)"

section \<open>The emitted record\<close>

record 'ts video =
  ID :: json
  Description :: json
  playCount :: json
  Likes :: json
  Comments :: json
  Shares :: json
  bookmarks :: json
  repostCount :: json
  creation_date :: "'ts option"
  video_url :: string
  creator_image :: json
  video_cover :: json
  video_duration :: json
  date_extraction :: string

subsection \<open>Field expressions shared by both strategies\<close>

text \<open>\<^verbatim>\<open>item.get('desc', 'No description')\<close>\<close>

definition item_desc :: "json \<Rightarrow> error + json" where
  "item_desc item = py_get item ''desc'' (JStr ''No description'')"

text \<open>\<^verbatim>\<open>item["statsV2"][k]\<close> for \<^verbatim>\<open>playCount\<close>, \<^verbatim>\<open>collectCount\<close>, \<^verbatim>\<open>repostCount\<close>.\<close>

definition item_statsV2 :: "json \<Rightarrow> string \<Rightarrow> error + json" where
  "item_statsV2 item k = and_then (py_index item ''statsV2'') (\<lambda>s. py_index s k)"

text \<open>\<^verbatim>\<open>item.get(sub, {}).get(k, 'N/A')\<close> for the like, comment and share counts.\<close>

definition item_count :: "json \<Rightarrow> string \<Rightarrow> string \<Rightarrow> error + json" where
  "item_count item sub k =
     and_then (py_get item sub (JObj [])) (\<lambda>s. py_get s k (JStr ''N/A''))"

text \<open>\<^verbatim>\<open>pd.to_datetime(create_time, unit='s') if create_time is not None else None\<close>\<close>

definition item_creation_date :: "'ts env \<Rightarrow> json \<Rightarrow> error + 'ts option" where
  "item_creation_date env create_time =
     (if create_time \<noteq> JNull
      then and_then (to_datetime env create_time) (\<lambda>t. Inr (Some t))
      else Inr None)"

text \<open>
  Line 124 (and 206): if \<^verbatim>\<open>author_unique_id and video_id != 'N/A'\<close>, the f-string made of
  \<^verbatim>\<open>https://www.tiktok.com/\<close>, an at sign, the formatted author handle, \<^verbatim>\<open>/video/\<close> and the
  formatted identifier; otherwise \<^verbatim>\<open>'N/A'\<close>.
\<close>

definition item_video_url :: "'ts env \<Rightarrow> json \<Rightarrow> json \<Rightarrow> string" where
  "item_video_url env author_unique_id video_id =
     (if truthy author_unique_id \<and> video_id \<noteq> JStr ''N/A''
      then ''https://www.tiktok.com/@'' @ py_format env author_unique_id
             @ ''/video/'' @ py_format env video_id
      else ''N/A'')"

text \<open>\<^verbatim>\<open>item['author']['avatarThumb']\<close>\<close>

definition item_creator_image :: "json \<Rightarrow> error + json" where
  "item_creator_image item = and_then (py_index item ''author'') (\<lambda>a. py_index a ''avatarThumb'')"

text \<open>\<^verbatim>\<open>item['video']['zoomCover'][variant]\<close>\<close>

definition item_video_cover :: "json \<Rightarrow> string \<Rightarrow> error + json" where
  "item_video_cover item variant =
     and_then (py_index item ''video'') (\<lambda>v.
     and_then (py_index v ''zoomCover'') (\<lambda>z. py_index z variant))"

text \<open>\<^verbatim>\<open>item['video']['duration']\<close>\<close>

definition item_video_duration :: "json \<Rightarrow> error + json" where
  "item_video_duration item = and_then (py_index item ''video'') (\<lambda>v. py_index v ''duration'')"

text \<open>\<^verbatim>\<open>item.get('author', {}).get('uniqueId')\<close>\<close>

definition item_author_unique_id :: "json \<Rightarrow> error + json" where
  "item_author_unique_id item =
     and_then (py_get item ''author'' (JObj [])) (\<lambda>a. py_get a ''uniqueId'' JNull)"

subsection \<open>The dict literal of each strategy\<close>

text \<open>
  The entries are evaluated in the order they are written (lines 110-129 for items of
  the embedded document, lines 193-211 for items of an intercepted payload); the first one
  that raises ends the construction. \<open>n\<close> is the number of records yielded so far.
\<close>

definition html_dict :: "'ts env \<Rightarrow> nat \<Rightarrow> json \<Rightarrow> json \<Rightarrow> json \<Rightarrow> json \<Rightarrow> error + 'ts video" where
  "html_dict env n video_id create_time author_unique_id item =
     and_then (item_desc item) (\<lambda>desc.
     and_then (item_statsV2 item ''playCount'') (\<lambda>play.
     and_then (item_count item ''statistics'' ''digg_count'') (\<lambda>likes.
     and_then (item_count item ''statistics'' ''comment_count'') (\<lambda>comments.
     and_then (item_count item ''statistics'' ''share_count'') (\<lambda>shares.
     and_then (item_statsV2 item ''collectCount'') (\<lambda>collect.
     and_then (item_statsV2 item ''repostCount'') (\<lambda>repost.
     and_then (item_creation_date env create_time) (\<lambda>created.
     and_then (item_creator_image item) (\<lambda>avatar.
     and_then (item_video_cover item ''720'') (\<lambda>cover.
     and_then (item_video_duration item) (\<lambda>duration.
       Inr \<lparr>ID = video_id, Description = desc, playCount = play, Likes = likes,
            Comments = comments, Shares = shares, bookmarks = collect, repostCount = repost,
            creation_date = created,
            video_url = item_video_url env author_unique_id video_id,
            creator_image = avatar, video_cover = cover, video_duration = duration,
            date_extraction = now env n\<rparr>)))))))))))"

definition api_dict :: "'ts env \<Rightarrow> nat \<Rightarrow> json \<Rightarrow> json \<Rightarrow> json \<Rightarrow> json \<Rightarrow> error + 'ts video" where
  "api_dict env n video_id create_time author_unique_id item =
     and_then (item_desc item) (\<lambda>desc.
     and_then (item_statsV2 item ''playCount'') (\<lambda>play.
     and_then (item_count item ''stats'' ''diggCount'') (\<lambda>likes.
     and_then (item_count item ''stats'' ''commentCount'') (\<lambda>comments.
     and_then (item_count item ''stats'' ''shareCount'') (\<lambda>shares.
     and_then (item_statsV2 item ''collectCount'') (\<lambda>collect.
     and_then (item_statsV2 item ''repostCount'') (\<lambda>repost.
     and_then (item_creation_date env create_time) (\<lambda>created.
     and_then (item_creator_image item) (\<lambda>avatar.
     and_then (item_video_cover item ''480'') (\<lambda>cover.
     and_then (item_video_duration item) (\<lambda>duration.
       Inr \<lparr>ID = video_id, Description = desc, playCount = play, Likes = likes,
            Comments = comments, Shares = shares, bookmarks = collect, repostCount = repost,
            creation_date = created,
            video_url = item_video_url env author_unique_id video_id,
            creator_image = avatar, video_cover = cover, video_duration = duration,
            date_extraction = now env n\<rparr>)))))))))))"

section \<open>Run-scoped state and the two extraction loops\<close>

text \<open>
  The part of the generator's state that the properties are about: the identity set and the records
  yielded so far, in the order they were yielded.
\<close>

record 'ts progress =
  seen_ids :: "key set"
  yielded :: "'ts video list"

text \<open>
  A statement can raise after part of its work is done, and what was yielded before
  stays yielded: a statement maps the state to the exception, if any, and the state
  reached. \<open>guarded\<close> evaluates an expression that can raise inside a statement.
\<close>

definition guarded :: "error + 'a \<Rightarrow> 's \<Rightarrow> ('a \<Rightarrow> error option \<times> 's) \<Rightarrow> error option \<times> 's" where
  "guarded m st f = (case m of Inl e \<Rightarrow> (Some e, st) | Inr x \<Rightarrow> f x)"

text \<open>A \<^verbatim>\<open>for\<close> loop: it ends at the first exception of its body.\<close>

fun for_each ::
  "('a \<Rightarrow> 's \<Rightarrow> error option \<times> 's) \<Rightarrow> 'a list \<Rightarrow> 's \<Rightarrow> error option \<times> 's" where
  "for_each body [] st = (None, st)"
| "for_each body (x # xs) st =
     (case body x st of
        (Some e, st') \<Rightarrow> (Some e, st')
      | (None, st') \<Rightarrow> for_each body xs st')"

text \<open>
  \<^verbatim>\<open>if video_id not in seen_ids: yield {...}; seen_ids.add(video_id)\<close>, the same in both
  strategies but for the dict literal \<open>mk\<close>.
\<close>

definition emit_if_new ::
  "(nat \<Rightarrow> error + 'ts video) \<Rightarrow> json \<Rightarrow> 'ts progress \<Rightarrow> error option \<times> 'ts progress" where
  "emit_if_new mk video_id st =
     guarded (py_hash video_id) st (\<lambda>k.
       if k \<notin> seen_ids st
       then guarded (mk (length (yielded st))) st (\<lambda>r.
              (None, st\<lparr>yielded := yielded st @ [r], seen_ids := insert k (seen_ids st)\<rparr>))
       else (None, st))"

text \<open>One iteration of the loop of lines 102-132.\<close>

definition html_item :: "'ts env \<Rightarrow> json \<Rightarrow> 'ts progress \<Rightarrow> error option \<times> 'ts progress" where
  "html_item env item st =
     (if is_dict item \<and> py_contains ''aweme_id'' item = Inr True
      then guarded (py_get item ''aweme_id'' (JStr ''N/A'')) st (\<lambda>video_id.
           guarded (py_get item ''createTime'' JNull) st (\<lambda>create_time.
           guarded (item_author_unique_id item) st (\<lambda>author_unique_id.
             emit_if_new (\<lambda>n. html_dict env n video_id create_time author_unique_id item)
               video_id st)))
      else (None, st))"

text \<open>One iteration of the loop of lines 185-214.\<close>

definition api_item :: "'ts env \<Rightarrow> json \<Rightarrow> 'ts progress \<Rightarrow> error option \<times> 'ts progress" where
  "api_item env item st =
     (if is_dict item
      then guarded (py_get item ''id'' (JStr ''N/A'')) st (\<lambda>video_id.
           guarded (py_get item ''createTime'' JNull) st (\<lambda>create_time.
           guarded (item_author_unique_id item) st (\<lambda>author_unique_id.
             emit_if_new (\<lambda>n. api_dict env n video_id create_time author_unique_id item)
               video_id st)))
      else (None, st))"

subsection \<open>Strategy 1: the embedded document\<close>

text \<open>
  What the page holds: no rehydration script element, one whose text \<^verbatim>\<open>json.loads\<close>
  rejects, or one that parses.
\<close>

datatype script_tag = NoScript | Malformed | Parsed json

text \<open>Lines 94-98: the item list by the first known path, else by the second.\<close>

definition aweme_list_from_html :: "json \<Rightarrow> error + json" where
  "aweme_list_from_html universal_data =
     and_then (py_get universal_data ''__DEFAULT_SCOPE__'' (JObj [])) (\<lambda>scope.
     and_then (py_get scope ''webapp.user-detail'' (JObj [])) (\<lambda>user_detail_scope.
     and_then (py_get user_detail_scope ''userInfo'' (JObj [])) (\<lambda>user_info.
     and_then (py_get user_info ''user'' (JObj [])) (\<lambda>user.
     and_then (py_get user ''awemeList'' (JList [])) (\<lambda>aweme_list.
       if \<not> truthy aweme_list
       then and_then (py_get user_detail_scope ''itemInfo'' (JObj [])) (\<lambda>item_info.
              py_get item_info ''itemStruct'' (JList []))
       else Inr aweme_list)))))"

text \<open>Lines 91-132, the body of the \<^verbatim>\<open>try\<close> of line 90 after \<^verbatim>\<open>json.loads\<close>.\<close>

definition html_block :: "'ts env \<Rightarrow> json \<Rightarrow> 'ts progress \<Rightarrow> error option \<times> 'ts progress" where
  "html_block env universal_data st =
     guarded (aweme_list_from_html universal_data) st (\<lambda>aweme_list.
       if truthy aweme_list
       then guarded (py_len aweme_list) st (\<lambda>count.
            guarded (py_iter aweme_list) st (\<lambda>items.
              for_each (html_item env) items st))
       else (None, st))"

text \<open>
  Lines 86-141. Both handlers of the inner \<^verbatim>\<open>try\<close> (lines 136-139) only print, so the
  strategy never raises: it returns the state reached.
\<close>

definition strategy1 :: "'ts env \<Rightarrow> script_tag \<Rightarrow> 'ts progress \<Rightarrow> 'ts progress" where
  "strategy1 env tag st =
     (case tag of
        NoScript \<Rightarrow> st
      | Malformed \<Rightarrow> st
      | Parsed universal_data \<Rightarrow> snd (html_block env universal_data st))"

subsection \<open>Strategy 2: the intercepted payloads\<close>

text \<open>One iteration of the loop of lines 182-216.\<close>

definition api_response :: "'ts env \<Rightarrow> json \<Rightarrow> 'ts progress \<Rightarrow> error option \<times> 'ts progress" where
  "api_response env response_data st =
     guarded (py_contains ''itemList'' response_data) st (\<lambda>present.
       if present
       then guarded (py_index response_data ''itemList'') st (\<lambda>item_list.
              if truthy item_list
              then guarded (py_len item_list) st (\<lambda>count.
                   guarded (py_iter item_list) st (\<lambda>items.
                     for_each (api_item env) items st))
              else (None, st))
       else (None, st))"

text \<open>Lines 182-216: an exception leaves the loop and reaches the handlers of lines 218-221.\<close>

definition strategy2 ::
  "'ts env \<Rightarrow> json list \<Rightarrow> 'ts progress \<Rightarrow> error option \<times> 'ts progress" where
  "strategy2 env intercepted_api_responses st =
     for_each (api_response env) intercepted_api_responses st"

section \<open>The browser\<close>

text \<open>
  What the browser does during a run, as far as the program looks at it. Every call of
  the automation library either returns or raises:
  \<^item> \<open>launch\<close>: lines 47-74 (launching, the context, the page, the route), before the
    \<^verbatim>\<open>try\<close> of line 77;
  \<^item> \<open>path_exists\<close>: \<^verbatim>\<open>os.path.exists\<close>;
  \<^item> \<open>goto\<close>: how \<^verbatim>\<open>page.goto(url, wait_until='networkidle', timeout=60000)\<close> ends, as a
    function of the URL and the timeout in milliseconds: the page loaded, a
    \<^verbatim>\<open>TimeoutError\<close> at the timeout, or another exception;
  \<^item> \<open>settle\<close>: \<^verbatim>\<open>page.wait_for_timeout(5000)\<close> of line 80;
  \<^item> \<open>content\<close>: \<^verbatim>\<open>page.content()\<close> of line 84, and \<open>rehydration_script\<close>: what the
    markup it returns holds;
  \<^item> \<open>scrollHeight i\<close>, \<open>scrollTo i\<close>, \<open>scroll_settle i\<close>: the three calls of the
    iteration of the scroll loop that starts with \<open>scroll_count = i\<close> (lines 164, 169
    and 171);
  \<^item> \<open>intercepted_api_responses\<close>: the payloads in the order in which the loop of line
    182 meets them;
  \<^item> \<open>storage_state\<close>: \<^verbatim>\<open>context.storage_state(path=...)\<close> of line 226, and
    \<open>close\<close>: \<^verbatim>\<open>browser.close()\<close> of line 229.

  The block about the refresh button (lines 145-156) catches every exception it raises
  (lines 153-156) and touches neither the identity set nor the stream; it is left out.
\<close>

datatype navigation = Loaded | NavTimeout | NavError

record browser =
  launch :: "error + unit"
  path_exists :: "string \<Rightarrow> bool"
  goto :: "string \<Rightarrow> nat \<Rightarrow> navigation"
  settle :: "error + unit"
  content :: "error + unit"
  rehydration_script :: script_tag
  scrollHeight :: "nat \<Rightarrow> error + int"
  scrollTo :: "nat \<Rightarrow> error + unit"
  scroll_settle :: "nat \<Rightarrow> error + unit"
  intercepted_api_responses :: "json list"
  storage_state :: "string \<Rightarrow> error + unit"
  close :: "error + unit"

section \<open>The scroll loop\<close>

text \<open>
  Lines 160-173. An iteration measures the document height, leaves the loop when the
  height is equal to the one before, and otherwise scrolls to the bottom and waits two
  seconds. Any of the three calls can raise, which ends the loop with the exception.
  The result is the exception, if any, and the number of scroll-to-bottom calls that
  returned.
\<close>

definition max_scrolls :: nat where
  "max_scrolls = 3"

function scroll_loop :: "browser \<Rightarrow> int \<Rightarrow> nat \<Rightarrow> error option \<times> nat" where
  "scroll_loop b previous_height scroll_count =
     (if scroll_count < max_scrolls
      then (case scrollHeight b scroll_count of
              Inl e \<Rightarrow> (Some e, scroll_count)
            | Inr current_height \<Rightarrow>
                if current_height = previous_height
                then (None, scroll_count)
                else (case scrollTo b scroll_count of
                        Inl e \<Rightarrow> (Some e, scroll_count)
                      | Inr scrolled \<Rightarrow>
                          (case scroll_settle b scroll_count of
                             Inl e \<Rightarrow> (Some e, scroll_count + 1)
                           | Inr waited \<Rightarrow> scroll_loop b current_height (scroll_count + 1))))
      else (None, scroll_count))"
  by pat_completeness auto
termination
  by (relation "measure (\<lambda>(b, p, c). max_scrolls - c)") auto

declare scroll_loop.simps [simp del]

section \<open>One run\<close>

text \<open>
  What a run leaves behind: the records yielded, the number of scroll-to-bottom calls
  that returned, the path the context was seeded from, the path the session state was
  written to, whether \<^verbatim>\<open>browser.close()\<close> was called and returned, and the exception that
  leaves the generator, if any.
\<close>

record 'ts run =
  emitted :: "'ts video list"
  scrolls :: nat
  loaded_state :: "string option"
  saved_state :: "string option"
  closed :: bool
  raised :: "error option"

text \<open>\<^verbatim>\<open>if storage_state_path:\<close> holds for a path that is neither \<^verbatim>\<open>None\<close> nor empty.\<close>

fun given :: "string option \<Rightarrow> bool" where
  "given None = False"
| "given (Some p) = (p \<noteq> [])"

text \<open>
  Lines 77-221: the body of the outer \<^verbatim>\<open>try\<close> with its two handlers, which only print.
  An exception of a browser call, or one that leaves Strategy 2, ends the body there; the
  result is the state reached and the number of scrolls.
\<close>

definition navigate_and_extract :: "'ts env \<Rightarrow> browser \<Rightarrow> string \<Rightarrow> 'ts progress \<times> nat" where
  "navigate_and_extract env b url =
     (let st0 = \<lparr>seen_ids = {}, yielded = []\<rparr>
      in case goto b url 60000 of
           Loaded \<Rightarrow>
             (case settle b of
                Inl e \<Rightarrow> (st0, 0)
              | Inr settled \<Rightarrow>
                  (case content b of
                     Inl e \<Rightarrow> (st0, 0)
                   | Inr page_content \<Rightarrow>
                       (let st1 = strategy1 env (rehydration_script b) st0
                        in case scroll_loop b (- 1) 0 of
                             (Some e, n) \<Rightarrow> (st1, n)
                           | (None, n) \<Rightarrow>
                               (snd (strategy2 env (intercepted_api_responses b) st1), n))))
         | NavTimeout \<Rightarrow> (st0, 0)
         | NavError \<Rightarrow> (st0, 0))"

text \<open>
  Lines 224-229, after the \<^verbatim>\<open>try\<close> statement and not in a \<^verbatim>\<open>finally\<close>: the session state is
  written when a path was given, then the browser is closed. An exception of the write
  leaves the generator before \<^verbatim>\<open>browser.close()\<close> is reached. The result is the path
  written, whether the browser was closed, and the exception.
\<close>

definition save_and_close :: "browser \<Rightarrow> string option \<Rightarrow> string option \<times> bool \<times> error option" where
  "save_and_close b storage_state_path =
     (case (if given storage_state_path
            then storage_state b (the storage_state_path) else Inr ()) of
        Inl e \<Rightarrow> (None, False, Some e)
      | Inr written \<Rightarrow>
          (case close b of
             Inl e \<Rightarrow> (if given storage_state_path then storage_state_path else None,
                       False, Some e)
           | Inr done \<Rightarrow> (if given storage_state_path then storage_state_path else None,
                         True, None)))"

text \<open>
  The whole generator, lines 43-230. An exception of the launch leaves the generator at
  once: it stands before the \<^verbatim>\<open>try\<close>.
\<close>

definition scrape_tiktok_profile ::
  "'ts env \<Rightarrow> browser \<Rightarrow> string \<Rightarrow> string option \<Rightarrow> bool \<Rightarrow> 'ts run" where
  "scrape_tiktok_profile env b url storage_state_path headless_debug =
     (let loaded = (if given storage_state_path \<and> path_exists b (the storage_state_path)
                    then storage_state_path else None)
      in case launch b of
           Inl e \<Rightarrow>
             \<lparr>emitted = [], scrolls = 0, loaded_state = loaded, saved_state = None,
              closed = False, raised = Some e\<rparr>
         | Inr ready \<Rightarrow>
             (let (st, n) = navigate_and_extract env b url;
                  (saved, shut, exn) = save_and_close b storage_state_path
              in \<lparr>emitted = yielded st, scrolls = n, loaded_state = loaded,
                  saved_state = saved, closed = shut, raised = exn\<rparr>))"

section \<open>Invariant of the identity set\<close>

text \<open>
  The IDs of the records yielded so far, hashed as the identity set hashes them, are
  pairwise different, and they are the elements of the identity set.
\<close>

definition hashed_ids :: "'ts video list \<Rightarrow> (error + key) list" where
  "hashed_ids rs = map (\<lambda>r. py_hash (ID r)) rs"

definition no_repeat :: "'ts progress \<Rightarrow> bool" where
  "no_repeat st =
     (distinct (hashed_ids (yielded st)) \<and> set (hashed_ids (yielded st)) = Inr ` seen_ids st)"

section \<open>Sources and the records built from them\<close>

text \<open>
  The record that an iteration of the loop of Strategy 1 (lines 104-129), respectively of
  Strategy 2 (lines 187-211), builds from an item when the identifier is new; \<open>n\<close> is
  the number of records yielded before.
\<close>

definition html_record :: "'ts env \<Rightarrow> nat \<Rightarrow> json \<Rightarrow> error + 'ts video" where
  "html_record env n item =
     and_then (py_get item ''aweme_id'' (JStr ''N/A'')) (\<lambda>video_id.
     and_then (py_get item ''createTime'' JNull) (\<lambda>create_time.
     and_then (item_author_unique_id item) (\<lambda>author_unique_id.
       html_dict env n video_id create_time author_unique_id item)))"

definition api_record :: "'ts env \<Rightarrow> nat \<Rightarrow> json \<Rightarrow> error + 'ts video" where
  "api_record env n item =
     and_then (py_get item ''id'' (JStr ''N/A'')) (\<lambda>video_id.
     and_then (py_get item ''createTime'' JNull) (\<lambda>create_time.
     and_then (item_author_unique_id item) (\<lambda>author_unique_id.
       api_dict env n video_id create_time author_unique_id item)))"

text \<open>
  The items in the order the loops meet them: the item list of the embedded document, and
  the item lists of the payloads one after the other, in the order of the accumulator.
\<close>

definition html_source :: "script_tag \<Rightarrow> json list" where
  "html_source tag =
     (case tag of
        Parsed universal_data \<Rightarrow>
          (case aweme_list_from_html universal_data of
             Inr aweme_list \<Rightarrow> (case py_iter aweme_list of Inr items \<Rightarrow> items | Inl e \<Rightarrow> [])
           | Inl e \<Rightarrow> [])
      | _ \<Rightarrow> [])"

definition payload_items :: "json \<Rightarrow> json list" where
  "payload_items response_data =
     (case py_index response_data ''itemList'' of
        Inr item_list \<Rightarrow> (case py_iter item_list of Inr items \<Rightarrow> items | Inl e \<Rightarrow> [])
      | Inl e \<Rightarrow> [])"

definition api_source :: "json list \<Rightarrow> json list" where
  "api_source responses = concat (map payload_items responses)"

text \<open>The records built from a list of items, the first of them after \<open>k\<close> others.\<close>

definition built ::
  "(nat \<Rightarrow> json \<Rightarrow> error + 'ts video) \<Rightarrow> nat \<Rightarrow> json list \<Rightarrow> (error + 'ts video) list" where
  "built mk k items = map (\<lambda>(i, item). mk i item) (enumerate k items)"

text \<open>
  The stream grows by the records built from some of the items, in their order.
\<close>

definition grows_by ::
  "(nat \<Rightarrow> json \<Rightarrow> error + 'ts video) \<Rightarrow> json list \<Rightarrow> 'ts progress \<Rightarrow> 'ts progress \<Rightarrow> bool" where
  "grows_by mk items st st' \<longleftrightarrow>
     (\<exists>sub. subseq sub items \<and>
        map Inr (yielded st') = map Inr (yielded st) @ built mk (length (yielded st)) sub)"

section \<open>Entries read without a default\<close>

text \<open>
  \<open>raises\<close> tells whether an expression ends in an exception. \<open>required_present\<close>
  holds of an item when none of the entries that the dict literal reads by subscripting
  (\<^verbatim>\<open>statsV2\<close>, the avatar, the cover of the given variant, the duration) and no conversion
  of \<^verbatim>\<open>createTime\<close> raises.
\<close>

definition raises :: "error + 'a \<Rightarrow> bool" where
  "raises m = (case m of Inl e \<Rightarrow> True | Inr x \<Rightarrow> False)"

definition required_present :: "'ts env \<Rightarrow> string \<Rightarrow> json \<Rightarrow> bool" where
  "required_present env variant item \<longleftrightarrow>
     \<not> raises (item_statsV2 item ''playCount'') \<and>
     \<not> raises (item_statsV2 item ''collectCount'') \<and>
     \<not> raises (item_statsV2 item ''repostCount'') \<and>
     \<not> raises (and_then (py_get item ''createTime'' JNull) (item_creation_date env)) \<and>
     \<not> raises (item_creator_image item) \<and>
     \<not> raises (item_video_cover item variant) \<and>
     \<not> raises (item_video_duration item)"

section \<open>Sample inputs\<close>

text \<open>
  An environment whose timestamps are the epoch seconds themselves; a page on which
  every browser call returns; one whose navigation never reaches network idleness; one
  that moreover cannot write the session state; and pages with given document heights.
\<close>

definition env0 :: "int env" where
  "env0 = \<lparr>to_datetime = (\<lambda>v. case v of JInt n \<Rightarrow> Inr n | _ \<Rightarrow> Inl ValueError),
            str_of = (\<lambda>v. ''?''),
            now = (\<lambda>n. ''2025-01-01 00:00:00'')\<rparr>"

definition blank_page :: browser where
  "blank_page = \<lparr>launch = Inr (), path_exists = (\<lambda>p. False), goto = (\<lambda>u t. Loaded),
                  settle = Inr (), content = Inr (), rehydration_script = NoScript,
                  scrollHeight = (\<lambda>i. Inr 800), scrollTo = (\<lambda>i. Inr ()),
                  scroll_settle = (\<lambda>i. Inr ()), intercepted_api_responses = [],
                  storage_state = (\<lambda>p. Inr ()), close = Inr ()\<rparr>"



definition shrinking :: "nat \<Rightarrow> int" where
  "shrinking i = (if i = 0 then 100 else if i = 1 then 50 else 40)"

definition stalling :: "nat \<Rightarrow> int" where
  "stalling i = (if i = 0 then 100 else 200)"

definition page_of_heights :: "(nat \<Rightarrow> int) \<Rightarrow> browser" where
  "page_of_heights h = blank_page\<lparr>scrollHeight := (\<lambda>i. Inr (h i))\<rparr>"

text \<open>
  Items for the two strategies. \<open>fx_item i\<close> has every entry that either strategy reads;
  the others lack one part each.
\<close>

definition fx_statsV2 :: "string \<times> json" where
  "fx_statsV2 = (''statsV2'', JObj [(''playCount'', JInt 10), (''collectCount'', JInt 2),
                                    (''repostCount'', JInt 3)])"

definition fx_author :: "string \<times> json" where
  "fx_author = (''author'', JObj [(''uniqueId'', JStr ''u''), (''avatarThumb'', JStr ''a.jpg'')])"

definition fx_video :: "string \<times> json" where
  "fx_video = (''video'', JObj [(''zoomCover'', JObj [(''720'', JStr ''c720''), (''480'', JStr ''c480'')]),
                                (''duration'', JInt 9)])"

definition fx_item :: "string \<Rightarrow> json" where
  "fx_item i = JObj [(''aweme_id'', JStr i), (''id'', JStr i), fx_statsV2,
                     (''statistics'', JObj [(''digg_count'', JInt 7)]),
                     (''stats'', JObj [(''diggCount'', JInt 7)]), fx_author, fx_video]"

definition no_cover :: "string \<Rightarrow> json" where
  "no_cover i = JObj [(''aweme_id'', JStr i), (''id'', JStr i), fx_statsV2, fx_author,
                      (''video'', JObj [(''duration'', JInt 9)])]"

definition no_statsV2 :: "string \<Rightarrow> json" where
  "no_statsV2 i = JObj [(''aweme_id'', JStr i), (''id'', JStr i),
                        (''statistics'', JObj [(''digg_count'', JInt 7)]),
                        (''stats'', JObj [(''diggCount'', JInt 7)]), fx_author, fx_video]"

definition no_counts :: "string \<Rightarrow> json" where
  "no_counts i = JObj [(''aweme_id'', JStr i), (''id'', JStr i), fx_statsV2, fx_author, fx_video]"

definition no_id :: json where
  "no_id = JObj [fx_statsV2, fx_author, fx_video]"

definition embedded_doc :: "json list \<Rightarrow> json" where
  "embedded_doc items =
     JObj [(''__DEFAULT_SCOPE__'', JObj [(''webapp.user-detail'',
       JObj [(''userInfo'', JObj [(''user'', JObj [(''awemeList'', JList items)])])])])]"

definition payload :: "json list \<Rightarrow> json" where
  "payload items = JObj [(''itemList'', JList items)]"

definition page_with :: "json list \<Rightarrow> json list list \<Rightarrow> browser" where
  "page_with items payloads =
     blank_page\<lparr>rehydration_script := Parsed (embedded_doc items),
                 intercepted_api_responses := map payload payloads\<rparr>"

definition fresh :: "int progress" where
  "fresh = \<lparr>seen_ids = {}, yielded = []\<rparr>"

section \<open>Properties\<close>

subsection \<open>Sequencing\<close>

lemma and_then_simps [simp]:
  "and_then (Inl e) f = Inl e"
  "and_then (Inr x) f = f x"
  by (simp_all add: and_then_def)

lemma and_then_eq_Inr: "and_then m f = Inr y \<longleftrightarrow> (\<exists>x. m = Inr x \<and> f x = Inr y)"
  by (cases m) simp_all

lemma guarded_simps [simp]:
  "guarded (Inl e) st f = (Some e, st)"
  "guarded (Inr x) st f = f x"
  by (simp_all add: guarded_def)

lemma html_dict_eq_Inr:
  "html_dict env n video_id create_time author_unique_id item = Inr r \<longleftrightarrow>
     (\<exists>desc play likes comments shares collect repost created avatar cover duration.
        item_desc item = Inr desc \<and>
        item_statsV2 item ''playCount'' = Inr play \<and>
        item_count item ''statistics'' ''digg_count'' = Inr likes \<and>
        item_count item ''statistics'' ''comment_count'' = Inr comments \<and>
        item_count item ''statistics'' ''share_count'' = Inr shares \<and>
        item_statsV2 item ''collectCount'' = Inr collect \<and>
        item_statsV2 item ''repostCount'' = Inr repost \<and>
        item_creation_date env create_time = Inr created \<and>
        item_creator_image item = Inr avatar \<and>
        item_video_cover item ''720'' = Inr cover \<and>
        item_video_duration item = Inr duration \<and>
        r = \<lparr>ID = video_id, Description = desc, playCount = play, Likes = likes,
            Comments = comments, Shares = shares, bookmarks = collect, repostCount = repost,
            creation_date = created,
            video_url = item_video_url env author_unique_id video_id,
            creator_image = avatar, video_cover = cover, video_duration = duration,
            date_extraction = now env n\<rparr>)"
  unfolding html_dict_def and_then_eq_Inr by blast

lemma api_dict_eq_Inr:
  "api_dict env n video_id create_time author_unique_id item = Inr r \<longleftrightarrow>
     (\<exists>desc play likes comments shares collect repost created avatar cover duration.
        item_desc item = Inr desc \<and>
        item_statsV2 item ''playCount'' = Inr play \<and>
        item_count item ''stats'' ''diggCount'' = Inr likes \<and>
        item_count item ''stats'' ''commentCount'' = Inr comments \<and>
        item_count item ''stats'' ''shareCount'' = Inr shares \<and>
        item_statsV2 item ''collectCount'' = Inr collect \<and>
        item_statsV2 item ''repostCount'' = Inr repost \<and>
        item_creation_date env create_time = Inr created \<and>
        item_creator_image item = Inr avatar \<and>
        item_video_cover item ''480'' = Inr cover \<and>
        item_video_duration item = Inr duration \<and>
        r = \<lparr>ID = video_id, Description = desc, playCount = play, Likes = likes,
            Comments = comments, Shares = shares, bookmarks = collect, repostCount = repost,
            creation_date = created,
            video_url = item_video_url env author_unique_id video_id,
            creator_image = avatar, video_cover = cover, video_duration = duration,
            date_extraction = now env n\<rparr>)"
  unfolding api_dict_def and_then_eq_Inr by blast

lemma html_dict_ID: "html_dict env n video_id create_time author_unique_id item = Inr r \<Longrightarrow> ID r = video_id"
  by (auto simp: html_dict_eq_Inr)

lemma api_dict_ID: "api_dict env n video_id create_time author_unique_id item = Inr r \<Longrightarrow> ID r = video_id"
  by (auto simp: api_dict_eq_Inr)


lemma for_each_preserves:
  assumes step: "\<And>x s e s'. P s \<Longrightarrow> body x s = (e, s') \<Longrightarrow> P s'"
  shows "P st \<Longrightarrow> for_each body xs st = (e, st') \<Longrightarrow> P st'"
proof (induction xs arbitrary: st)
  case Nil
  then show ?case by simp
next
  case (Cons x xs)
  obtain e1 s1 where b: "body x st = (e1, s1)" by (cases "body x st")
  have P1: "P s1" using step [OF Cons.prems(1) b] .
  show ?case
  proof (cases e1)
    case None
    with Cons.prems(2) b have "for_each body xs s1 = (e, st')" by simp
    from Cons.IH [OF P1 this] show ?thesis .
  next
    case (Some err)
    with Cons.prems(2) b have "st' = s1" by simp
    with P1 show ?thesis by simp
  qed
qed

lemma guarded_cases:
  assumes "guarded m st f = (e, st')"
  obtains (raised) err where "m = Inl err" "e = Some err" "st' = st"
        | (returned) x where "m = Inr x" "f x = (e, st')"
  using assms by (cases m) auto

lemma emit_if_new_no_repeat:
  assumes mk: "\<And>n r. mk n = Inr r \<Longrightarrow> ID r = video_id"
    and inv: "no_repeat st"
    and run: "emit_if_new mk video_id st = (e, st')"
  shows "no_repeat st'"
proof -
  from run show ?thesis unfolding emit_if_new_def
  proof (cases rule: guarded_cases)
    case (raised err)
    with inv show ?thesis by simp
  next
    case (returned k)
    show ?thesis
    proof (cases "k \<in> seen_ids st")
      case True
      with returned inv show ?thesis by simp
    next
      case False
      with returned have "guarded (mk (length (yielded st))) st (\<lambda>r.
              (None, st\<lparr>yielded := yielded st @ [r], seen_ids := insert k (seen_ids st)\<rparr>)) = (e, st')"
        by simp
      then show ?thesis
      proof (cases rule: guarded_cases)
        case (raised err)
        with inv show ?thesis by simp
      next
        case (returned r)
        have idr: "py_hash (ID r) = Inr k" using mk [OF returned(1)] \<open>py_hash video_id = Inr k\<close> by simp
        have fresh: "Inr k \<notin> set (hashed_ids (yielded st))" using inv False
          by (auto simp: no_repeat_def)
        have st': "st' = st\<lparr>yielded := yielded st @ [r], seen_ids := insert k (seen_ids st)\<rparr>"
          using returned(2) by simp
        have ids: "hashed_ids (yielded st') = hashed_ids (yielded st) @ [Inr k]"
          by (simp add: st' hashed_ids_def idr)
        have "distinct (hashed_ids (yielded st'))"
          using inv fresh by (simp add: ids no_repeat_def)
        moreover have "set (hashed_ids (yielded st')) = Inr ` seen_ids st'"
        proof -
          have "set (hashed_ids (yielded st)) = Inr ` seen_ids st"
            using inv by (simp add: no_repeat_def)
          moreover have "seen_ids st' = insert k (seen_ids st)" by (simp add: st')
          ultimately show ?thesis unfolding ids by auto
        qed
        ultimately show ?thesis by (simp add: no_repeat_def)
      qed
    qed
  qed
qed

lemma html_item_no_repeat:
  "no_repeat st \<Longrightarrow> html_item env item st = (e, st') \<Longrightarrow> no_repeat st'"
  unfolding html_item_def
  by (auto split: if_splits elim!: guarded_cases intro: emit_if_new_no_repeat html_dict_ID)

lemma api_item_no_repeat:
  "no_repeat st \<Longrightarrow> api_item env item st = (e, st') \<Longrightarrow> no_repeat st'"
  unfolding api_item_def
  by (auto split: if_splits elim!: guarded_cases intro: emit_if_new_no_repeat api_dict_ID)

lemma html_items_no_repeat:
  assumes "no_repeat st" and "for_each (html_item env) items st = (e, st')"
  shows "no_repeat st'"
  using html_item_no_repeat assms by (rule for_each_preserves [where P = no_repeat])

lemma api_items_no_repeat:
  assumes "no_repeat st" and "for_each (api_item env) items st = (e, st')"
  shows "no_repeat st'"
  using api_item_no_repeat assms by (rule for_each_preserves [where P = no_repeat])

lemma html_block_no_repeat:
  "no_repeat st \<Longrightarrow> html_block env universal_data st = (e, st') \<Longrightarrow> no_repeat st'"
  unfolding html_block_def
  by (auto split: if_splits elim!: guarded_cases elim: html_items_no_repeat)

lemma strategy1_no_repeat: "no_repeat st \<Longrightarrow> no_repeat (strategy1 env tag st)"
  unfolding strategy1_def
  by (cases tag) (auto intro: html_block_no_repeat [OF _ surjective_pairing])

lemma api_response_no_repeat:
  assumes inv: "no_repeat st" and run: "api_response env response_data st = (e, st')"
  shows "no_repeat st'"
  using run unfolding api_response_def
proof (cases rule: guarded_cases)
  case (raised err)
  with inv show ?thesis by simp
next
  case present: (returned present)
  show ?thesis
  proof (cases present)
    case False
    with present inv show ?thesis by simp
  next
    case True
    with present have "guarded (py_index response_data ''itemList'') st (\<lambda>item_list.
              if truthy item_list
              then guarded (py_len item_list) st (\<lambda>count.
                   guarded (py_iter item_list) st (\<lambda>items.
                     for_each (api_item env) items st))
              else (None, st)) = (e, st')" by simp
    then show ?thesis using inv
      by (auto split: if_splits elim!: guarded_cases elim: api_items_no_repeat)
  qed
qed

lemma strategy2_no_repeat:
  assumes "no_repeat st" and "strategy2 env rs st = (e, st')"
  shows "no_repeat st'"
  using api_response_no_repeat assms unfolding strategy2_def
  by (rule for_each_preserves [where P = no_repeat])

lemma emitted_cases:
  fixes env :: "'ts env"
  defines "st0 \<equiv> \<lparr>seen_ids = {}, yielded = [] :: 'ts video list\<rparr>"
  shows "emitted (scrape_tiktok_profile env b url storage_state_path headless_debug) = [] \<or>
         emitted (scrape_tiktok_profile env b url storage_state_path headless_debug) =
           yielded (strategy1 env (rehydration_script b) st0) \<or>
         emitted (scrape_tiktok_profile env b url storage_state_path headless_debug) =
           yielded (snd (strategy2 env (intercepted_api_responses b)
                           (strategy1 env (rehydration_script b) st0)))"
  unfolding st0_def
  by (simp add: scrape_tiktok_profile_def navigate_and_extract_def Let_def
      split: sum.splits navigation.splits prod.splits option.splits)

lemma emitted_distinct:
  "distinct (map (\<lambda>r. py_hash (ID r))
     (emitted (scrape_tiktok_profile env b url storage_state_path headless_debug)))"
proof -
  define st0 :: "'a progress" where "st0 = \<lparr>seen_ids = {}, yielded = []\<rparr>"
  define st1 where "st1 = strategy1 env (rehydration_script b) st0"
  define st2 where "st2 = snd (strategy2 env (intercepted_api_responses b) st1)"
  have init: "no_repeat st0"
    by (simp add: st0_def no_repeat_def hashed_ids_def)
  then have one: "no_repeat st1" unfolding st1_def by (rule strategy1_no_repeat)
  then have two: "no_repeat st2"
    unfolding st2_def by (rule strategy2_no_repeat [OF _ surjective_pairing])
  from emitted_cases [of env b url storage_state_path headless_debug]
  consider "emitted (scrape_tiktok_profile env b url storage_state_path headless_debug) = []"
    | "emitted (scrape_tiktok_profile env b url storage_state_path headless_debug) = yielded st1"
    | "emitted (scrape_tiktok_profile env b url storage_state_path headless_debug) = yielded st2"
    unfolding st0_def st1_def st2_def by blast
  then show ?thesis
  proof cases
    case 1
    then show ?thesis by simp
  next
    case 2
    with one show ?thesis by (simp add: no_repeat_def hashed_ids_def)
  next
    case 3
    with two show ?thesis by (simp add: no_repeat_def hashed_ids_def)
  qed
qed

subsection \<open>The scroll loop\<close>

lemma scroll_loop_from:
  "scroll_count \<le> snd (scroll_loop b previous_height scroll_count)"
proof (induction b previous_height scroll_count rule: scroll_loop.induct)
  case (1 b p c)
  show ?case
    by (subst scroll_loop.simps) (use "1.IH" in \<open>auto split: sum.splits dest: Suc_leD\<close>)
qed

lemma scroll_loop_bound:
  "scroll_count \<le> max_scrolls \<Longrightarrow> snd (scroll_loop b previous_height scroll_count) \<le> max_scrolls"
proof (induction b previous_height scroll_count rule: scroll_loop.induct)
  case (1 b p c)
  show ?case
    by (subst scroll_loop.simps) (use 1 in \<open>auto split: sum.splits\<close>)
qed

lemma scroll_loop_equal:
  "scrollHeight b (j + 1) = scrollHeight b j \<Longrightarrow> scroll_count \<le> j + 1 \<Longrightarrow>
   (scroll_count = j + 1 \<longrightarrow> scrollHeight b j = Inr previous_height) \<Longrightarrow>
   snd (scroll_loop b previous_height scroll_count) \<le> j + 1"
proof (induction b previous_height scroll_count rule: scroll_loop.induct)
  case (1 b p c)
  note same = "1.prems"(1) and le = "1.prems"(2) and prev = "1.prems"(3)
  show ?case
  proof (cases "c < max_scrolls")
    case False
    then show ?thesis using le by (subst scroll_loop.simps) simp
  next
    case inside: True
    show ?thesis
    proof (cases "scrollHeight b c")
      case (Inl e)
      then show ?thesis using le inside by (subst scroll_loop.simps) simp
    next
      case (Inr h)
      show ?thesis
      proof (cases "h = p")
        case True
        then show ?thesis using le inside Inr by (subst scroll_loop.simps) simp
      next
        case False
        have "c \<noteq> j + 1"
        proof
          assume c: "c = j + 1"
          with prev have before: "scrollHeight b j = Inr p" by simp
          have "scrollHeight b j = scrollHeight b (j + 1)" using same by (rule sym)
          also have "\<dots> = Inr h" using Inr unfolding c .
          finally have "scrollHeight b j = Inr h" .
          with before have "h = p" by simp
          with False show False ..
        qed
        with le have cj: "c \<le> j" by simp
        show ?thesis
        proof (cases "scrollTo b c")
          case (Inl e)
          then show ?thesis using le inside Inr False
            by (subst scroll_loop.simps) simp
        next
          case scrolled: (Inr u)
          show ?thesis
          proof (cases "scroll_settle b c")
            case (Inl e)
            then show ?thesis using cj inside Inr False scrolled
              by (subst scroll_loop.simps) simp
          next
            case waited: (Inr w)
            have "snd (scroll_loop b h (c + 1)) \<le> j + 1"
            proof (rule "1.IH" [OF inside Inr False scrolled waited same])
              show "c + 1 \<le> j + 1" using cj by simp
              show "c + 1 = j + 1 \<longrightarrow> scrollHeight b j = Inr h" using Inr by auto
            qed
            then show ?thesis using inside Inr False scrolled waited
              by (subst scroll_loop.simps) simp
          qed
        qed
      qed
    qed
  qed
qed

lemma scroll_loop_exit:
  "scroll_loop b previous_height scroll_count = (None, n) \<Longrightarrow> n < max_scrolls \<Longrightarrow>
   scrollHeight b n = (if n = scroll_count then Inr previous_height else scrollHeight b (n - 1))"
proof (induction b previous_height scroll_count rule: scroll_loop.induct)
  case (1 b p c)
  from "1.prems"(1) have unfolded:
    "(if c < max_scrolls
      then (case scrollHeight b c of
              Inl e \<Rightarrow> (Some e, c)
            | Inr current_height \<Rightarrow>
                if current_height = p
                then (None, c)
                else (case scrollTo b c of
                        Inl e \<Rightarrow> (Some e, c)
                      | Inr scrolled \<Rightarrow>
                          (case scroll_settle b c of
                             Inl e \<Rightarrow> (Some e, c + 1)
                           | Inr waited \<Rightarrow> scroll_loop b current_height (c + 1))))
      else (None, c)) = (None, n)"
    by (subst (asm) scroll_loop.simps)
  show ?case
  proof (cases "c < max_scrolls")
    case False
    with unfolded "1.prems"(2) show ?thesis by simp
  next
    case inside: True
    with unfolded obtain h where h: "scrollHeight b c = Inr h"
      by (cases "scrollHeight b c") auto
    show ?thesis
    proof (cases "h = p")
      case True
      with unfolded inside h show ?thesis by auto
    next
      case False
      with unfolded inside h obtain u where u: "scrollTo b c = Inr u"
        by (cases "scrollTo b c") auto
      with unfolded inside h False obtain w where w: "scroll_settle b c = Inr w"
        by (cases "scroll_settle b c") auto
      from unfolded inside h False u w have rec: "scroll_loop b h (c + 1) = (None, n)" by simp
      from "1.IH" [OF inside h False u w rec "1.prems"(2)]
      have ih: "scrollHeight b n = (if n = c + 1 then Inr h else scrollHeight b (n - 1))" .
      from scroll_loop_from [of "c + 1" b h] rec have "c + 1 \<le> n" by simp
      with ih h show ?thesis by auto
    qed
  qed
qed

lemma scrolls_cases:
  "scrolls (scrape_tiktok_profile env b url storage_state_path headless_debug) = 0 \<or>
   scrolls (scrape_tiktok_profile env b url storage_state_path headless_debug) =
     snd (scroll_loop b (- 1) 0)"
  by (simp add: scrape_tiktok_profile_def navigate_and_extract_def Let_def
      split: sum.splits navigation.splits prod.splits option.splits)

text \<open>
  C7. If every measurement of the document height gives the same value, a run performs
  at most one scroll-to-bottom action.
\<close>

theorem constant_height_scrolls_once:
  assumes "\<forall>i. scrollHeight b i = Inr h"
  shows "scrolls (scrape_tiktok_profile env b url storage_state_path headless_debug) \<le> 1"
proof -
  from assms have "scrollHeight b (0 + 1) = scrollHeight b 0" by simp
  then have "snd (scroll_loop b (- 1) 0) \<le> 0 + 1"
    by (rule scroll_loop_equal) simp_all
  with scrolls_cases [of env b url storage_state_path headless_debug]
  show ?thesis by auto
qed

theorem constant_height_scrolls_once_witness:
  "(\<forall>i. scrollHeight blank_page i = Inr 800) \<and>
   scrolls (scrape_tiktok_profile env0 blank_page ''https://www.tiktok.com/@u'' None True) = 1"
proof -
  have h: "\<forall>i. scrollHeight blank_page i = Inr 800" by (simp add: blank_page_def)
  have "scrolls (scrape_tiktok_profile env0 blank_page ''https://www.tiktok.com/@u'' None True) = 1"
    using constant_height_scrolls_once [OF h, of env0 "''https://www.tiktok.com/@u''" None True]
    by (simp add: scrape_tiktok_profile_def navigate_and_extract_def save_and_close_def
        strategy1_def strategy2_def blank_page_def scroll_loop.simps max_scrolls_def)
  with h show ?thesis by simp
qed

text \<open>
  C8, as the code has it. The loop performs at most 3 scroll-to-bottom actions. It leaves
  early exactly when a measurement is equal to the one before it (the first measurement is
  compared with -1): if measurement \<open>j + 1\<close> equals measurement \<open>j\<close>, no more than
  \<open>j + 1\<close> scrolls are performed, and a loop that ends without an exception after fewer
  than 3 scrolls ended at a measurement equal to the one before. A measurement smaller
  than the one before does not stop the loop.
\<close>

theorem scroll_loop_stops_on_equal_height:
  "snd (scroll_loop b (- 1) 0) \<le> max_scrolls \<and>
   (\<forall>j. scrollHeight b (j + 1) = scrollHeight b j \<longrightarrow> snd (scroll_loop b (- 1) 0) \<le> j + 1) \<and>
   (fst (scroll_loop b (- 1) 0) = None \<and> snd (scroll_loop b (- 1) 0) < max_scrolls \<longrightarrow>
      scrollHeight b (snd (scroll_loop b (- 1) 0)) =
        (if snd (scroll_loop b (- 1) 0) = 0 then Inr (- 1)
         else scrollHeight b (snd (scroll_loop b (- 1) 0) - 1)))"
proof (intro conjI allI impI)
  show "snd (scroll_loop b (- 1) 0) \<le> max_scrolls"
    by (rule scroll_loop_bound) simp
next
  fix j assume "scrollHeight b (j + 1) = scrollHeight b j"
  then show "snd (scroll_loop b (- 1) 0) \<le> j + 1"
    by (rule scroll_loop_equal) simp_all
next
  assume a: "fst (scroll_loop b (- 1) 0) = None \<and> snd (scroll_loop b (- 1) 0) < max_scrolls"
  then have "scroll_loop b (- 1) 0 = (None, snd (scroll_loop b (- 1) 0))"
    by (simp add: prod_eq_iff)
  from scroll_loop_exit [OF this] a
  show "scrollHeight b (snd (scroll_loop b (- 1) 0)) =
        (if snd (scroll_loop b (- 1) 0) = 0 then Inr (- 1)
         else scrollHeight b (snd (scroll_loop b (- 1) 0) - 1))"
    by simp
qed

lemma scroll_loop_of_heights:
  "scroll_loop (page_of_heights h) (- 1) 0 =
     (None, if h 0 = - 1 then 0 else if h 1 = h 0 then 1 else if h 2 = h 1 then 2 else 3)"
  by (simp add: scroll_loop.simps max_scrolls_def page_of_heights_def blank_page_def
      numeral_2_eq_2)

theorem scroll_loop_stops_on_equal_height_witness:
  "scrollHeight (page_of_heights stalling) (1 + 1) = scrollHeight (page_of_heights stalling) 1 \<and>
   scroll_loop (page_of_heights stalling) (- 1) 0 = (None, 2) \<and>
   snd (scroll_loop (page_of_heights stalling) (- 1) 0) < max_scrolls \<and>
   scrollHeight (page_of_heights stalling) 2 = scrollHeight (page_of_heights stalling) (2 - 1)"
proof -
  have eq: "scrollHeight (page_of_heights stalling) (1 + 1) = scrollHeight (page_of_heights stalling) 1"
    by (simp add: stalling_def page_of_heights_def)
  have le: "snd (scroll_loop (page_of_heights stalling) (- 1) 0) \<le> 1 + 1"
    using scroll_loop_stops_on_equal_height [of "page_of_heights stalling"] eq by blast
  have "scroll_loop (page_of_heights stalling) (- 1) 0 = (None, 2)"
    using le by (simp add: scroll_loop_of_heights stalling_def)
  then show ?thesis by (simp add: stalling_def max_scrolls_def page_of_heights_def)
qed

text \<open>
  C8 as stated fails: with the heights 100, 50, 40 every measurement after the first is
  smaller than the one before, and the loop still performs all 3 scrolls.
\<close>

theorem shrinking_height_counterexample:
  "shrinking 1 \<le> shrinking 0 \<and> shrinking 2 \<le> shrinking 1 \<and>
   scroll_loop (page_of_heights shrinking) (- 1) 0 = (None, 3)"
  by (simp add: scroll_loop_of_heights shrinking_def)

subsection \<open>Navigation timeout\<close>

lemma raises_simps [simp]: "raises (Inl e) = True" "raises (Inr x) = False"
  by (simp_all add: raises_def)




subsection \<open>The stream follows the sources\<close>

lemma built_Nil [simp]: "built mk k [] = []"
  by (simp add: built_def)

lemma built_single [simp]: "built mk k [x] = [mk k x]"
  by (simp add: built_def)

lemma built_append: "built mk k (xs @ ys) = built mk k xs @ built mk (k + length xs) ys"
  by (simp add: built_def enumerate_append_eq)

lemma length_built [simp]: "length (built mk k xs) = length xs"
  by (simp add: built_def)

lemma grows_by_refl: "grows_by mk items st st"
  unfolding grows_by_def by (rule exI [of _ "[]"]) simp

lemma grows_by_length:
  assumes "map Inr (yielded st') = map Inr (yielded st) @ built mk (length (yielded st)) sub"
  shows "length (yielded st') = length (yielded st) + length sub"
proof -
  have "length (map Inr (yielded st') :: (error + 'a video) list) = length (map Inr (yielded st) @ built mk (length (yielded st)) sub)"
    using assms by simp
  then show ?thesis by simp
qed

lemma grows_by_trans:
  assumes "grows_by mk xs st s1" and "grows_by mk ys s1 st'"
  shows "grows_by mk (xs @ ys) st st'"
proof -
  from assms(1) obtain a where a: "subseq a xs"
    "map Inr (yielded s1) = map Inr (yielded st) @ built mk (length (yielded st)) a"
    unfolding grows_by_def by blast
  from assms(2) obtain c where c: "subseq c ys"
    "map Inr (yielded st') = map Inr (yielded s1) @ built mk (length (yielded s1)) c"
    unfolding grows_by_def by blast
  have len: "length (yielded s1) = length (yielded st) + length a"
    using a(2) by (rule grows_by_length)
  have "subseq (a @ c) (xs @ ys)" using a(1) c(1) by (rule list_emb_append_mono)
  moreover have "map Inr (yielded st') = map Inr (yielded st) @ built mk (length (yielded st)) (a @ c)"
    by (simp add: c(2) a(2) len built_append)
  ultimately show ?thesis unfolding grows_by_def by blast
qed

lemma grows_by_first:
  assumes "grows_by mk xs st st'" shows "grows_by mk (xs @ ys) st st'"
  using grows_by_trans [OF assms grows_by_refl [of mk ys st']] .

lemma for_each_grows:
  assumes step: "\<And>x s e s'. body x s = (e, s') \<Longrightarrow> grows_by mk (src x) s s'"
  shows "for_each body xs st = (e, st') \<Longrightarrow> grows_by mk (concat (map src xs)) st st'"
proof (induction xs arbitrary: st)
  case Nil
  then show ?case by (simp add: grows_by_refl)
next
  case (Cons x xs)
  obtain e1 s1 where b: "body x st = (e1, s1)" by (cases "body x st")
  have g1: "grows_by mk (src x) st s1" using step [OF b] .
  show ?case
  proof (cases e1)
    case None
    with Cons.prems b have "for_each body xs s1 = (e, st')" by simp
    from Cons.IH [OF this] have "grows_by mk (concat (map src xs)) s1 st'" .
    with g1 show ?thesis by (simp add: grows_by_trans)
  next
    case (Some err)
    with Cons.prems b have "st' = s1" by simp
    with g1 show ?thesis by (simp add: grows_by_first)
  qed
qed

lemma emit_if_new_grows:
  assumes "emit_if_new (\<lambda>n. mk n item) video_id st = (e, st')"
  shows "grows_by mk [item] st st'"
  using assms unfolding emit_if_new_def
proof (cases rule: guarded_cases)
  case (raised err)
  then show ?thesis by (simp add: grows_by_refl)
next
  case (returned k)
  show ?thesis
  proof (cases "k \<in> seen_ids st")
    case True
    with returned show ?thesis by (simp add: grows_by_refl)
  next
    case False
    with returned have "guarded (mk (length (yielded st)) item) st (\<lambda>r.
        (None, st\<lparr>yielded := yielded st @ [r], seen_ids := insert k (seen_ids st)\<rparr>)) = (e, st')"
      by simp
    then show ?thesis
    proof (cases rule: guarded_cases)
      case (raised err)
      then show ?thesis by (simp add: grows_by_refl)
    next
      case (returned r)
      then have "map Inr (yielded st') = map Inr (yielded st) @ built mk (length (yielded st)) [item]"
        by auto
      then show ?thesis unfolding grows_by_def by (intro exI [of _ "[item]"]) simp
    qed
  qed
qed


lemma html_item_grows:
  assumes "html_item env item st = (e, st')"
  shows "grows_by (html_record env) [item] st st'"
proof (cases "is_dict item \<and> py_contains ''aweme_id'' item = Inr True")
  case False
  with assms show ?thesis by (simp add: html_item_def grows_by_refl)
next
  case True
  with assms have "guarded (py_get item ''aweme_id'' (JStr ''N/A'')) st (\<lambda>video_id.
           guarded (py_get item ''createTime'' JNull) st (\<lambda>create_time.
           guarded (item_author_unique_id item) st (\<lambda>author_unique_id.
             emit_if_new (\<lambda>n. html_dict env n video_id create_time author_unique_id item)
               video_id st))) = (e, st')"
    by (simp add: html_item_def)
  then show ?thesis
  proof (cases rule: guarded_cases)
    case (raised err)
    then show ?thesis by (simp add: grows_by_refl)
  next
    case vid: (returned video_id)
    from vid(2) show ?thesis
    proof (cases rule: guarded_cases)
      case (raised err)
      then show ?thesis by (simp add: grows_by_refl)
    next
      case ct: (returned create_time)
      from ct(2) show ?thesis
      proof (cases rule: guarded_cases)
        case (raised err)
        then show ?thesis by (simp add: grows_by_refl)
      next
        case au: (returned author_unique_id)
        have "(\<lambda>n. html_dict env n video_id create_time author_unique_id item) =
              (\<lambda>n. html_record env n item)"
          by (simp add: html_record_def vid(1) ct(1) au(1))
        with au(2) show ?thesis by (simp add: emit_if_new_grows)
      qed
    qed
  qed
qed

lemma api_item_grows:
  assumes "api_item env item st = (e, st')"
  shows "grows_by (api_record env) [item] st st'"
proof (cases "is_dict item")
  case False
  with assms show ?thesis by (simp add: api_item_def grows_by_refl)
next
  case True
  with assms have "guarded (py_get item ''id'' (JStr ''N/A'')) st (\<lambda>video_id.
           guarded (py_get item ''createTime'' JNull) st (\<lambda>create_time.
           guarded (item_author_unique_id item) st (\<lambda>author_unique_id.
             emit_if_new (\<lambda>n. api_dict env n video_id create_time author_unique_id item)
               video_id st))) = (e, st')"
    by (simp add: api_item_def)
  then show ?thesis
  proof (cases rule: guarded_cases)
    case (raised err)
    then show ?thesis by (simp add: grows_by_refl)
  next
    case vid: (returned video_id)
    from vid(2) show ?thesis
    proof (cases rule: guarded_cases)
      case (raised err)
      then show ?thesis by (simp add: grows_by_refl)
    next
      case ct: (returned create_time)
      from ct(2) show ?thesis
      proof (cases rule: guarded_cases)
        case (raised err)
        then show ?thesis by (simp add: grows_by_refl)
      next
        case au: (returned author_unique_id)
        have "(\<lambda>n. api_dict env n video_id create_time author_unique_id item) =
              (\<lambda>n. api_record env n item)"
          by (simp add: api_record_def vid(1) ct(1) au(1))
        with au(2) show ?thesis by (simp add: emit_if_new_grows)
      qed
    qed
  qed
qed

lemma concat_singletons: "concat (map (\<lambda>x. [x]) xs) = xs"
  by (induction xs) simp_all

lemma html_items_grow:
  assumes "for_each (html_item env) items st = (e, st')"
  shows "grows_by (html_record env) items st st'"
  using for_each_grows [where src = "\<lambda>x. [x]" and body = "html_item env", OF html_item_grows assms]
  by (simp add: concat_singletons)

lemma api_items_grow:
  assumes "for_each (api_item env) items st = (e, st')"
  shows "grows_by (api_record env) items st st'"
  using for_each_grows [where src = "\<lambda>x. [x]" and body = "api_item env", OF api_item_grows assms]
  by (simp add: concat_singletons)

lemma html_block_grows:
  assumes "html_block env universal_data st = (e, st')"
  shows "grows_by (html_record env) (html_source (Parsed universal_data)) st st'"
  using assms unfolding html_block_def
proof (cases rule: guarded_cases)
  case (raised err)
  then show ?thesis by (simp add: grows_by_refl)
next
  case lst: (returned aweme_list)
  show ?thesis
  proof (cases "truthy aweme_list")
    case False
    with lst show ?thesis by (simp add: grows_by_refl)
  next
    case True
    with lst have "guarded (py_len aweme_list) st (\<lambda>count.
            guarded (py_iter aweme_list) st (\<lambda>items.
              for_each (html_item env) items st)) = (e, st')" by simp
    then show ?thesis
    proof (cases rule: guarded_cases)
      case (raised err)
      then show ?thesis by (simp add: grows_by_refl)
    next
      case len: (returned count)
      from len(2) show ?thesis
      proof (cases rule: guarded_cases)
        case (raised err)
        then show ?thesis by (simp add: grows_by_refl)
      next
        case it: (returned items)
        have "html_source (Parsed universal_data) = items"
          by (simp add: html_source_def lst(1) it(1))
        with it(2) show ?thesis by (simp add: html_items_grow)
      qed
    qed
  qed
qed

lemma strategy1_grows:
  "grows_by (html_record env) (html_source tag) st (strategy1 env tag st)"
proof (cases tag)
  case (Parsed universal_data)
  then show ?thesis
    using html_block_grows [OF surjective_pairing, of env universal_data st]
    by (simp add: strategy1_def)
qed (simp_all add: strategy1_def grows_by_refl)

lemma api_response_grows:
  assumes "api_response env response_data st = (e, st')"
  shows "grows_by (api_record env) (payload_items response_data) st st'"
  using assms unfolding api_response_def
proof (cases rule: guarded_cases)
  case (raised err)
  then show ?thesis by (simp add: grows_by_refl)
next
  case present: (returned present)
  show ?thesis
  proof (cases present)
    case False
    with present show ?thesis by (simp add: grows_by_refl)
  next
    case True
    with present have "guarded (py_index response_data ''itemList'') st (\<lambda>item_list.
              if truthy item_list
              then guarded (py_len item_list) st (\<lambda>count.
                   guarded (py_iter item_list) st (\<lambda>items.
                     for_each (api_item env) items st))
              else (None, st)) = (e, st')" by simp
    then show ?thesis
    proof (cases rule: guarded_cases)
      case (raised err)
      then show ?thesis by (simp add: grows_by_refl)
    next
      case lst: (returned item_list)
      show ?thesis
      proof (cases "truthy item_list")
        case False
        with lst show ?thesis by (simp add: grows_by_refl)
      next
        case True
        with lst have "guarded (py_len item_list) st (\<lambda>count.
                   guarded (py_iter item_list) st (\<lambda>items.
                     for_each (api_item env) items st)) = (e, st')" by simp
        then show ?thesis
        proof (cases rule: guarded_cases)
          case (raised err)
          then show ?thesis by (simp add: grows_by_refl)
        next
          case len: (returned count)
          from len(2) show ?thesis
          proof (cases rule: guarded_cases)
            case (raised err)
            then show ?thesis by (simp add: grows_by_refl)
          next
            case it: (returned items)
            have "payload_items response_data = items"
              by (simp add: payload_items_def lst(1) it(1))
            with it(2) show ?thesis by (simp add: api_items_grow)
          qed
        qed
      qed
    qed
  qed
qed

lemma strategy2_grows:
  assumes "strategy2 env responses st = (e, st')"
  shows "grows_by (api_record env) (api_source responses) st st'"
  using for_each_grows [where src = payload_items and body = "api_response env",
      OF api_response_grows assms [unfolded strategy2_def]]
  by (simp add: api_source_def)

lemma stream_decomposition:
  "\<exists>hs as. subseq hs (html_source (rehydration_script b)) \<and>
     subseq as (api_source (intercepted_api_responses b)) \<and>
     map Inr (emitted (scrape_tiktok_profile env b url storage_state_path headless_debug)) =
       built (html_record env) 0 hs @ built (api_record env) (length hs) as"
proof -
  define st0 :: "'a progress" where "st0 = \<lparr>seen_ids = {}, yielded = []\<rparr>"
  define st1 where "st1 = strategy1 env (rehydration_script b) st0"
  define st2 where "st2 = snd (strategy2 env (intercepted_api_responses b) st1)"
  have "grows_by (html_record env) (html_source (rehydration_script b)) st0 st1"
    unfolding st1_def by (rule strategy1_grows)
  then obtain hs where hs: "subseq hs (html_source (rehydration_script b))"
    "map Inr (yielded st1) = built (html_record env) 0 hs"
    unfolding grows_by_def st0_def by auto
  have "grows_by (api_record env) (api_source (intercepted_api_responses b)) st1 st2"
    unfolding st2_def by (rule strategy2_grows [OF surjective_pairing])
  then obtain as where as: "subseq as (api_source (intercepted_api_responses b))"
    "map Inr (yielded st2) = map Inr (yielded st1) @ built (api_record env) (length (yielded st1)) as"
    unfolding grows_by_def by auto
  have "length (map Inr (yielded st1) :: (error + 'a video) list) = length (built (html_record env) 0 hs)"
    using hs(2) by simp
  then have len: "length (yielded st1) = length hs" by simp
  from emitted_cases [of env b url storage_state_path headless_debug]
  consider "emitted (scrape_tiktok_profile env b url storage_state_path headless_debug) = []"
    | "emitted (scrape_tiktok_profile env b url storage_state_path headless_debug) = yielded st1"
    | "emitted (scrape_tiktok_profile env b url storage_state_path headless_debug) = yielded st2"
    unfolding st0_def st1_def st2_def by blast
  then show ?thesis
  proof cases
    case 1
    then show ?thesis by (intro exI [of _ "[]"]) simp
  next
    case 2
    with hs show ?thesis by (intro exI [of _ hs] exI [of _ "[]"]) simp
  next
    case 3
    with hs(1) as(1) show ?thesis
      by (intro exI [of _ hs] exI [of _ as]) (simp add: as(2) hs(2) len)
  qed
qed

subsection \<open>Order of the stream and cover variants\<close>

lemmas field_defs = item_desc_def item_statsV2_def item_count_def item_creation_date_def
  item_video_url_def item_creator_image_def item_video_cover_def item_video_duration_def
  item_author_unique_id_def py_format_def

lemmas loop_defs = html_item_def api_item_def emit_if_new_def html_dict_def api_dict_def
  html_block_def api_response_def aweme_list_from_html_def strategy1_def strategy2_def

lemmas run_defs = scrape_tiktok_profile_def navigate_and_extract_def save_and_close_def
  scroll_loop.simps max_scrolls_def

lemmas sample_defs = env0_def blank_page_def fx_statsV2_def fx_author_def fx_video_def
  fx_item_def no_cover_def no_statsV2_def no_counts_def no_id_def embedded_doc_def
  payload_def page_with_def fresh_def


lemma built_Cons: "built mk k (x # xs) = mk k x # built mk (Suc k) xs"
  by (simp add: built_def)

lemma built_project:
  assumes proj: "\<And>n item r. mk n item = Inr r \<Longrightarrow> f item = Inr (g r)"
  shows "map Inr rs = built mk k items \<Longrightarrow> map (\<lambda>r. Inr (g r)) rs = map f items"
proof (induction items arbitrary: rs k)
  case Nil
  then show ?case by simp
next
  case (Cons x xs)
  from Cons.prems obtain r rs' where rs: "rs = r # rs'" "mk k x = Inr r"
    "map Inr rs' = built mk (Suc k) xs"
    by (cases rs) (auto simp: built_Cons)
  from Cons.IH [OF rs(3)] proj [OF rs(2)] show ?case by (simp add: rs(1))
qed

lemma html_record_fields:
  assumes "html_record env n item = Inr r"
  shows "py_get item ''aweme_id'' (JStr ''N/A'') = Inr (ID r)"
    and "item_video_cover item ''720'' = Inr (video_cover r)"
  using assms by (auto simp: html_record_def and_then_eq_Inr html_dict_eq_Inr)

lemma api_record_fields:
  assumes "api_record env n item = Inr r"
  shows "py_get item ''id'' (JStr ''N/A'') = Inr (ID r)"
    and "item_video_cover item ''480'' = Inr (video_cover r)"
  using assms by (auto simp: api_record_def and_then_eq_Inr api_dict_eq_Inr)

text \<open>
  C4. The stream of a run is the records built from some items of the embedded document,
  in the order of its item list, followed by the records built from some items of the
  intercepted payloads, in the order of the payloads and, within a payload, of its item
  list.
\<close>

theorem embedded_records_first_in_source_order:
  "\<exists>hs as. subseq hs (html_source (rehydration_script b)) \<and>
     subseq as (api_source (intercepted_api_responses b)) \<and>
     map Inr (emitted (scrape_tiktok_profile env b url storage_state_path headless_debug)) =
       built (html_record env) 0 hs @ built (api_record env) (length hs) as"
  by (rule stream_decomposition)

text \<open>
  C10, as the code has it. The records of the embedded document carry the \<^verbatim>\<open>720\<close> entry of
  their item's \<^verbatim>\<open>zoomCover\<close>, the records of the payloads the \<^verbatim>\<open>480\<close> entry, and the
  identifiers of all of them are pairwise different: a video that is yielded from the
  embedded document is yielded with its \<^verbatim>\<open>720\<close> cover and not again from a payload.
\<close>

theorem cover_variant_follows_the_source:
  "\<exists>hs as. subseq hs (html_source (rehydration_script b)) \<and>
     subseq as (api_source (intercepted_api_responses b)) \<and>
     map (\<lambda>r. Inr (video_cover r))
         (emitted (scrape_tiktok_profile env b url storage_state_path headless_debug)) =
       map (\<lambda>item. item_video_cover item ''720'') hs @
       map (\<lambda>item. item_video_cover item ''480'') as \<and>
     map (\<lambda>r. Inr (ID r))
         (emitted (scrape_tiktok_profile env b url storage_state_path headless_debug)) =
       map (\<lambda>item. py_get item ''aweme_id'' (JStr ''N/A'')) hs @
       map (\<lambda>item. py_get item ''id'' (JStr ''N/A'')) as \<and>
     distinct (map (\<lambda>r. py_hash (ID r))
         (emitted (scrape_tiktok_profile env b url storage_state_path headless_debug)))"
proof -
  define E where "E = emitted (scrape_tiktok_profile env b url storage_state_path headless_debug)"
  obtain hs as where src: "subseq hs (html_source (rehydration_script b))"
      "subseq as (api_source (intercepted_api_responses b))"
    and E: "map Inr E = built (html_record env) 0 hs @ built (api_record env) (length hs) as"
    using stream_decomposition [of b env url storage_state_path headless_debug]
    unfolding E_def by blast
  from E obtain E1 E2 where split: "E = E1 @ E2"
    "map Inr E1 = built (html_record env) 0 hs"
    "map Inr E2 = built (api_record env) (length hs) as"
    by (auto simp: map_eq_append_conv)
  have c1: "map (\<lambda>r. Inr (video_cover r)) E1 = map (\<lambda>item. item_video_cover item ''720'') hs"
    using split(2) by (rule built_project [rotated]) (rule html_record_fields(2))
  have c2: "map (\<lambda>r. Inr (video_cover r)) E2 = map (\<lambda>item. item_video_cover item ''480'') as"
    using split(3) by (rule built_project [rotated]) (rule api_record_fields(2))
  have i1: "map (\<lambda>r. Inr (ID r)) E1 = map (\<lambda>item. py_get item ''aweme_id'' (JStr ''N/A'')) hs"
    using split(2) by (rule built_project [rotated]) (rule html_record_fields(1))
  have i2: "map (\<lambda>r. Inr (ID r)) E2 = map (\<lambda>item. py_get item ''id'' (JStr ''N/A'')) as"
    using split(3) by (rule built_project [rotated]) (rule api_record_fields(1))
  have d: "distinct (map (\<lambda>r. py_hash (ID r)) E)"
    unfolding E_def by (rule emitted_distinct)
  show ?thesis
    unfolding E_def [symmetric]
    using src d by (intro exI [of _ hs] exI [of _ as]) (simp add: split(1) c1 c2 i1 i2)
qed

text \<open>
  C10 as stated fails. A video can be in both sources and be yielded with the \<^verbatim>\<open>480\<close>
  cover: here the embedded list holds an item without \<^verbatim>\<open>statsV2\<close> before video 1, the
  exception ends Strategy 1 before video 1 is reached, and Strategy 2 yields it.
\<close>

theorem cover_variant_counterexample:
  "html_source (rehydration_script (page_with [no_statsV2 ''4'', fx_item ''1''] [[fx_item ''1'']])) =
     [no_statsV2 ''4'', fx_item ''1''] \<and>
   api_source (intercepted_api_responses (page_with [no_statsV2 ''4'', fx_item ''1''] [[fx_item ''1'']])) =
     [fx_item ''1''] \<and>
   item_video_cover (fx_item ''1'') ''720'' = Inr (JStr ''c720'') \<and>
   map (\<lambda>r. (ID r, video_cover r))
     (emitted (scrape_tiktok_profile env0 (page_with [no_statsV2 ''4'', fx_item ''1''] [[fx_item ''1'']])
        ''https://www.tiktok.com/@u'' None True)) = [(JStr ''1'', JStr ''c480'')]"
  by (simp add: run_defs loop_defs field_defs sample_defs html_source_def api_source_def
      payload_items_def)

subsection \<open>Items with entries missing\<close>

lemma not_raises: "\<not> raises m \<longleftrightarrow> (\<exists>x. m = Inr x)"
  by (cases m) (simp_all add: raises_def)

lemma avatar_gives_author:
  assumes "item_creator_image item = Inr avatar"
  shows "\<exists>a. item_author_unique_id item = Inr a"
proof -
  from assms obtain a where a: "py_index item ''author'' = Inr a" "py_index a ''avatarThumb'' = Inr avatar"
    by (auto simp: item_creator_image_def and_then_eq_Inr)
  from a(1) obtain kvs where item: "item = JObj kvs" "map_of kvs ''author'' = Some a"
    by (cases item) (auto split: option.splits)
  from a(2) obtain akvs where "a = JObj akvs" by (cases a) auto
  with item show ?thesis by (simp add: item_author_unique_id_def)
qed

lemma html_record_succeeds:
  assumes item: "item = JObj kvs"
    and counts: "py_get item ''statistics'' (JObj []) = Inr (JObj s)"
    and req: "required_present env ''720'' item"
  shows "\<exists>r. html_record env n item = Inr r \<and>
           ID r = (case map_of kvs ''aweme_id'' of None \<Rightarrow> JStr ''N/A'' | Some v \<Rightarrow> v) \<and>
           Likes r = (case map_of s ''digg_count'' of None \<Rightarrow> JStr ''N/A'' | Some c \<Rightarrow> c) \<and>
           Comments r = (case map_of s ''comment_count'' of None \<Rightarrow> JStr ''N/A'' | Some c \<Rightarrow> c) \<and>
           Shares r = (case map_of s ''share_count'' of None \<Rightarrow> JStr ''N/A'' | Some c \<Rightarrow> c) \<and>
           Inr (video_cover r) = item_video_cover item ''720''"
proof -
  from req obtain play collect repost created avatar cover duration where f:
    "item_statsV2 item ''playCount'' = Inr play"
    "item_statsV2 item ''collectCount'' = Inr collect"
    "item_statsV2 item ''repostCount'' = Inr repost"
    "and_then (py_get item ''createTime'' JNull) (item_creation_date env) = Inr created"
    "item_creator_image item = Inr avatar"
    "item_video_cover item ''720'' = Inr cover"
    "item_video_duration item = Inr duration"
    unfolding required_present_def not_raises by blast
  from avatar_gives_author [OF f(5)] obtain au where au: "item_author_unique_id item = Inr au" ..
  define vid where "vid = (case map_of kvs ''aweme_id'' of None \<Rightarrow> JStr ''N/A'' | Some v \<Rightarrow> v)"
  define ct where "ct = (case map_of kvs ''createTime'' of None \<Rightarrow> JNull | Some v \<Rightarrow> v)"
  have ctd: "item_creation_date env ct = Inr created"
    using f(4) by (simp add: item ct_def)
  have cnt: "item_count item ''statistics'' k = Inr (case map_of s k of None \<Rightarrow> JStr ''N/A'' | Some c \<Rightarrow> c)" for k
    using counts by (simp add: item_count_def)
  have desc: "\<exists>d. item_desc item = Inr d" by (simp add: item_desc_def item)
  then obtain d where d: "item_desc item = Inr d" ..
  define r where "r = \<lparr>ID = vid, Description = d, playCount = play,
      Likes = (case map_of s ''digg_count'' of None \<Rightarrow> JStr ''N/A'' | Some c \<Rightarrow> c),
      Comments = (case map_of s ''comment_count'' of None \<Rightarrow> JStr ''N/A'' | Some c \<Rightarrow> c),
      Shares = (case map_of s ''share_count'' of None \<Rightarrow> JStr ''N/A'' | Some c \<Rightarrow> c),
      bookmarks = collect, repostCount = repost, creation_date = created,
      video_url = item_video_url env au vid, creator_image = avatar, video_cover = cover,
      video_duration = duration, date_extraction = now env n\<rparr>"
  have "html_dict env n vid ct au item = Inr r"
    unfolding html_dict_eq_Inr r_def using d f(1,2,3,5,6,7) ctd cnt by simp
  then have "html_record env n item = Inr r"
    by (simp add: html_record_def item vid_def ct_def au [unfolded item])
  then show ?thesis
    by (intro exI [of _ r]) (simp add: r_def vid_def f(6))
qed

lemma api_record_succeeds:
  assumes item: "item = JObj kvs"
    and counts: "py_get item ''stats'' (JObj []) = Inr (JObj s)"
    and req: "required_present env ''480'' item"
  shows "\<exists>r. api_record env n item = Inr r \<and>
           ID r = (case map_of kvs ''id'' of None \<Rightarrow> JStr ''N/A'' | Some v \<Rightarrow> v) \<and>
           Likes r = (case map_of s ''diggCount'' of None \<Rightarrow> JStr ''N/A'' | Some c \<Rightarrow> c) \<and>
           Comments r = (case map_of s ''commentCount'' of None \<Rightarrow> JStr ''N/A'' | Some c \<Rightarrow> c) \<and>
           Shares r = (case map_of s ''shareCount'' of None \<Rightarrow> JStr ''N/A'' | Some c \<Rightarrow> c) \<and>
           Inr (video_cover r) = item_video_cover item ''480''"
proof -
  from req obtain play collect repost created avatar cover duration where f:
    "item_statsV2 item ''playCount'' = Inr play"
    "item_statsV2 item ''collectCount'' = Inr collect"
    "item_statsV2 item ''repostCount'' = Inr repost"
    "and_then (py_get item ''createTime'' JNull) (item_creation_date env) = Inr created"
    "item_creator_image item = Inr avatar"
    "item_video_cover item ''480'' = Inr cover"
    "item_video_duration item = Inr duration"
    unfolding required_present_def not_raises by blast
  from avatar_gives_author [OF f(5)] obtain au where au: "item_author_unique_id item = Inr au" ..
  define vid where "vid = (case map_of kvs ''id'' of None \<Rightarrow> JStr ''N/A'' | Some v \<Rightarrow> v)"
  define ct where "ct = (case map_of kvs ''createTime'' of None \<Rightarrow> JNull | Some v \<Rightarrow> v)"
  have ctd: "item_creation_date env ct = Inr created"
    using f(4) by (simp add: item ct_def)
  have cnt: "item_count item ''stats'' k = Inr (case map_of s k of None \<Rightarrow> JStr ''N/A'' | Some c \<Rightarrow> c)" for k
    using counts by (simp add: item_count_def)
  have desc: "\<exists>d. item_desc item = Inr d" by (simp add: item_desc_def item)
  then obtain d where d: "item_desc item = Inr d" ..
  define r where "r = \<lparr>ID = vid, Description = d, playCount = play,
      Likes = (case map_of s ''diggCount'' of None \<Rightarrow> JStr ''N/A'' | Some c \<Rightarrow> c),
      Comments = (case map_of s ''commentCount'' of None \<Rightarrow> JStr ''N/A'' | Some c \<Rightarrow> c),
      Shares = (case map_of s ''shareCount'' of None \<Rightarrow> JStr ''N/A'' | Some c \<Rightarrow> c),
      bookmarks = collect, repostCount = repost, creation_date = created,
      video_url = item_video_url env au vid, creator_image = avatar, video_cover = cover,
      video_duration = duration, date_extraction = now env n\<rparr>"
  have "api_dict env n vid ct au item = Inr r"
    unfolding api_dict_eq_Inr r_def using d f(1,2,3,5,6,7) ctd cnt by simp
  then have "api_record env n item = Inr r"
    by (simp add: api_record_def item vid_def ct_def au [unfolded item])
  then show ?thesis
    by (intro exI [of _ r]) (simp add: r_def vid_def f(6))
qed

lemma html_item_emits:
  assumes item: "item = JObj kvs" "map_of kvs ''aweme_id'' = Some video_id"
    and new: "py_hash video_id = Inr k" "k \<notin> seen_ids st"
    and rec: "html_record env (length (yielded st)) item = Inr r"
  shows "html_item env item st =
           (None, st\<lparr>yielded := yielded st @ [r], seen_ids := insert k (seen_ids st)\<rparr>)"
proof -
  from rec obtain ct au where
    ct: "py_get item ''createTime'' JNull = Inr ct" and
    au: "item_author_unique_id item = Inr au" and
    d: "html_dict env (length (yielded st)) video_id ct au item = Inr r"
    by (auto simp: html_record_def and_then_eq_Inr item)
  have "emit_if_new (\<lambda>n. html_dict env n video_id ct au item) video_id st =
      (None, st\<lparr>yielded := yielded st @ [r], seen_ids := insert k (seen_ids st)\<rparr>)"
    using new d by (simp add: emit_if_new_def)
  then show ?thesis
    using ct au by (simp add: html_item_def item)
qed

lemma api_item_emits:
  assumes item: "item = JObj kvs"
    and vid: "video_id = (case map_of kvs ''id'' of None \<Rightarrow> JStr ''N/A'' | Some v \<Rightarrow> v)"
    and new: "py_hash video_id = Inr k" "k \<notin> seen_ids st"
    and rec: "api_record env (length (yielded st)) item = Inr r"
  shows "api_item env item st =
           (None, st\<lparr>yielded := yielded st @ [r], seen_ids := insert k (seen_ids st)\<rparr>)"
proof -
  have g: "py_get item ''id'' (JStr ''N/A'') = Inr video_id" by (simp add: item vid)
  from rec obtain ct au where
    ct: "py_get item ''createTime'' JNull = Inr ct" and
    au: "item_author_unique_id item = Inr au" and
    d: "api_dict env (length (yielded st)) video_id ct au item = Inr r"
    by (auto simp: api_record_def and_then_eq_Inr g)
  have "emit_if_new (\<lambda>n. api_dict env n video_id ct au item) video_id st =
      (None, st\<lparr>yielded := yielded st @ [r], seen_ids := insert k (seen_ids st)\<rparr>)"
    using new d by (simp add: emit_if_new_def)
  moreover have "is_dict item" by (simp add: item)
  ultimately show ?thesis
    using ct au g by (simp add: api_item_def)
qed


text \<open>
  C6. An intercepted item whose \<^verbatim>\<open>stats\<close> dict holds \<^verbatim>\<open>diggCount\<close> is normalised by
  Strategy 2 into a record whose \<open>Likes\<close> is that count, and an embedded item whose
  \<^verbatim>\<open>statistics\<close> dict holds \<^verbatim>\<open>digg_count\<close> is normalised by Strategy 1 into a record whose
  \<open>Likes\<close> is that count; in both cases the entries read by subscripting are present.
\<close>

theorem likes_populated_from_both_shapes:
  "(a_item = JObj a_kvs \<and> map_of a_kvs ''stats'' = Some (JObj a_stats) \<and>
    map_of a_stats ''diggCount'' = Some a_count \<and> required_present env ''480'' a_item
      \<longrightarrow> (\<exists>r. api_record env n a_item = Inr r \<and> Likes r = a_count)) \<and>
   (h_item = JObj h_kvs \<and> map_of h_kvs ''statistics'' = Some (JObj h_stats) \<and>
    map_of h_stats ''digg_count'' = Some h_count \<and> required_present env ''720'' h_item
      \<longrightarrow> (\<exists>r. html_record env n h_item = Inr r \<and> Likes r = h_count))"
proof (intro conjI impI)
  assume a: "a_item = JObj a_kvs \<and> map_of a_kvs ''stats'' = Some (JObj a_stats) \<and>
    map_of a_stats ''diggCount'' = Some a_count \<and> required_present env ''480'' a_item"
  then have "py_get a_item ''stats'' (JObj []) = Inr (JObj a_stats)" by simp
  from api_record_succeeds [OF _ this, of a_kvs env n] a
  show "\<exists>r. api_record env n a_item = Inr r \<and> Likes r = a_count" by auto
next
  assume h: "h_item = JObj h_kvs \<and> map_of h_kvs ''statistics'' = Some (JObj h_stats) \<and>
    map_of h_stats ''digg_count'' = Some h_count \<and> required_present env ''720'' h_item"
  then have "py_get h_item ''statistics'' (JObj []) = Inr (JObj h_stats)" by simp
  from html_record_succeeds [OF _ this, of h_kvs env n] h
  show "\<exists>r. html_record env n h_item = Inr r \<and> Likes r = h_count" by auto
qed


theorem likes_populated_from_both_shapes_witness:
  "required_present env0 ''480'' (fx_item ''1'') \<and> required_present env0 ''720'' (fx_item ''1'') \<and>
   (\<exists>r. api_record env0 0 (fx_item ''1'') = Inr r \<and> Likes r = JInt 7) \<and>
   (\<exists>r. html_record env0 0 (fx_item ''1'') = Inr r \<and> Likes r = JInt 7)"
proof -
  let ?kvs = "[(''aweme_id'', JStr ''1''), (''id'', JStr ''1''), fx_statsV2,
               (''statistics'', JObj [(''digg_count'', JInt 7)]),
               (''stats'', JObj [(''diggCount'', JInt 7)]), fx_author, fx_video]"
  have item: "fx_item ''1'' = JObj ?kvs" by (simp add: fx_item_def)
  have a: "map_of ?kvs ''stats'' = Some (JObj [(''diggCount'', JInt 7)])"
    and h: "map_of ?kvs ''statistics'' = Some (JObj [(''digg_count'', JInt 7)])"
    by (simp_all add: sample_defs)
  have ra: "required_present env0 ''480'' (fx_item ''1'')"
    and rh: "required_present env0 ''720'' (fx_item ''1'')"
    by (simp_all add: required_present_def raises_def field_defs sample_defs)
  from likes_populated_from_both_shapes [of "fx_item ''1''" ?kvs "[(''diggCount'', JInt 7)]" "JInt 7"
      env0 0 "fx_item ''1''" ?kvs "[(''digg_count'', JInt 7)]" "JInt 7"]
  show ?thesis using item a h ra rh by simp
qed

text \<open>
  C3, as the code has it. Take an item (for Strategy 1: with an \<^verbatim>\<open>aweme_id\<close>) whose
  identifier is hashable and not yet in the identity set, and for which no other entry of
  the dict literal raises: the three \<^verbatim>\<open>statsV2\<close> counts, the avatar, the cover of the
  strategy's variant and the duration are present, and the conversion of \<^verbatim>\<open>createTime\<close>
  succeeds (\<open>required_present\<close>). If its \<^verbatim>\<open>statistics\<close> entry (Strategy 1), respectively its
  \<^verbatim>\<open>stats\<close> entry (Strategy 2), is absent or is a dict, the item is yielded, and each of
  \<open>Likes\<close>, \<open>Comments\<close> and \<open>Shares\<close> whose key is not there is \<^verbatim>\<open>'N/A'\<close>. (For an absent
  entry \<^verbatim>\<open>item.get(sub, {})\<close> is the empty dict, so all three are \<^verbatim>\<open>'N/A'\<close>.)
\<close>

theorem absent_like_counts_give_sentinel:
  "(h_item = JObj h_kvs \<and> map_of h_kvs ''aweme_id'' = Some h_id \<and> py_hash h_id = Inr h_key \<and>
    h_key \<notin> seen_ids h_st \<and> py_get h_item ''statistics'' (JObj []) = Inr (JObj h_counts) \<and>
    required_present env ''720'' h_item
      \<longrightarrow> (\<exists>r. html_item env h_item h_st =
                  (None, h_st\<lparr>yielded := yielded h_st @ [r],
                               seen_ids := insert h_key (seen_ids h_st)\<rparr>) \<and>
               Likes r = (case map_of h_counts ''digg_count'' of None \<Rightarrow> JStr ''N/A'' | Some c \<Rightarrow> c) \<and>
               Comments r = (case map_of h_counts ''comment_count'' of None \<Rightarrow> JStr ''N/A'' | Some c \<Rightarrow> c) \<and>
               Shares r = (case map_of h_counts ''share_count'' of None \<Rightarrow> JStr ''N/A'' | Some c \<Rightarrow> c))) \<and>
   (a_item = JObj a_kvs \<and>
    py_hash (case map_of a_kvs ''id'' of None \<Rightarrow> JStr ''N/A'' | Some v \<Rightarrow> v) = Inr a_key \<and>
    a_key \<notin> seen_ids a_st \<and> py_get a_item ''stats'' (JObj []) = Inr (JObj a_counts) \<and>
    required_present env ''480'' a_item
      \<longrightarrow> (\<exists>r. api_item env a_item a_st =
                  (None, a_st\<lparr>yielded := yielded a_st @ [r],
                               seen_ids := insert a_key (seen_ids a_st)\<rparr>) \<and>
               Likes r = (case map_of a_counts ''diggCount'' of None \<Rightarrow> JStr ''N/A'' | Some c \<Rightarrow> c) \<and>
               Comments r = (case map_of a_counts ''commentCount'' of None \<Rightarrow> JStr ''N/A'' | Some c \<Rightarrow> c) \<and>
               Shares r = (case map_of a_counts ''shareCount'' of None \<Rightarrow> JStr ''N/A'' | Some c \<Rightarrow> c)))"
proof (intro conjI impI)
  assume h: "h_item = JObj h_kvs \<and> map_of h_kvs ''aweme_id'' = Some h_id \<and> py_hash h_id = Inr h_key \<and>
    h_key \<notin> seen_ids h_st \<and> py_get h_item ''statistics'' (JObj []) = Inr (JObj h_counts) \<and>
    required_present env ''720'' h_item"
  then obtain r where r: "html_record env (length (yielded h_st)) h_item = Inr r"
    "Likes r = (case map_of h_counts ''digg_count'' of None \<Rightarrow> JStr ''N/A'' | Some c \<Rightarrow> c)"
    "Comments r = (case map_of h_counts ''comment_count'' of None \<Rightarrow> JStr ''N/A'' | Some c \<Rightarrow> c)"
    "Shares r = (case map_of h_counts ''share_count'' of None \<Rightarrow> JStr ''N/A'' | Some c \<Rightarrow> c)"
    using html_record_succeeds [of h_item h_kvs h_counts env "length (yielded h_st)"] by blast
  have "html_item env h_item h_st =
      (None, h_st\<lparr>yielded := yielded h_st @ [r], seen_ids := insert h_key (seen_ids h_st)\<rparr>)"
    using h r(1) by (intro html_item_emits [where kvs = h_kvs and video_id = h_id]) simp_all
  with r(2,3,4) show "\<exists>r. html_item env h_item h_st =
                  (None, h_st\<lparr>yielded := yielded h_st @ [r],
                               seen_ids := insert h_key (seen_ids h_st)\<rparr>) \<and>
               Likes r = (case map_of h_counts ''digg_count'' of None \<Rightarrow> JStr ''N/A'' | Some c \<Rightarrow> c) \<and>
               Comments r = (case map_of h_counts ''comment_count'' of None \<Rightarrow> JStr ''N/A'' | Some c \<Rightarrow> c) \<and>
               Shares r = (case map_of h_counts ''share_count'' of None \<Rightarrow> JStr ''N/A'' | Some c \<Rightarrow> c)"
    by blast
next
  assume a: "a_item = JObj a_kvs \<and>
    py_hash (case map_of a_kvs ''id'' of None \<Rightarrow> JStr ''N/A'' | Some v \<Rightarrow> v) = Inr a_key \<and>
    a_key \<notin> seen_ids a_st \<and> py_get a_item ''stats'' (JObj []) = Inr (JObj a_counts) \<and>
    required_present env ''480'' a_item"
  then obtain r where r: "api_record env (length (yielded a_st)) a_item = Inr r"
    "Likes r = (case map_of a_counts ''diggCount'' of None \<Rightarrow> JStr ''N/A'' | Some c \<Rightarrow> c)"
    "Comments r = (case map_of a_counts ''commentCount'' of None \<Rightarrow> JStr ''N/A'' | Some c \<Rightarrow> c)"
    "Shares r = (case map_of a_counts ''shareCount'' of None \<Rightarrow> JStr ''N/A'' | Some c \<Rightarrow> c)"
    using api_record_succeeds [of a_item a_kvs a_counts env "length (yielded a_st)"] by blast
  have "api_item env a_item a_st =
      (None, a_st\<lparr>yielded := yielded a_st @ [r], seen_ids := insert a_key (seen_ids a_st)\<rparr>)"
  proof (rule api_item_emits [OF _ refl _ _ r(1)])
    show "a_item = JObj a_kvs" using a by blast
    show "py_hash (case map_of a_kvs ''id'' of None \<Rightarrow> JStr ''N/A'' | Some v \<Rightarrow> v) = Inr a_key"
      using a by blast
    show "a_key \<notin> seen_ids a_st" using a by blast
  qed
  with r(2,3,4) show "\<exists>r. api_item env a_item a_st =
                  (None, a_st\<lparr>yielded := yielded a_st @ [r],
                               seen_ids := insert a_key (seen_ids a_st)\<rparr>) \<and>
               Likes r = (case map_of a_counts ''diggCount'' of None \<Rightarrow> JStr ''N/A'' | Some c \<Rightarrow> c) \<and>
               Comments r = (case map_of a_counts ''commentCount'' of None \<Rightarrow> JStr ''N/A'' | Some c \<Rightarrow> c) \<and>
               Shares r = (case map_of a_counts ''shareCount'' of None \<Rightarrow> JStr ''N/A'' | Some c \<Rightarrow> c)"
    by blast
qed

theorem absent_like_counts_give_sentinel_witness:
  "(\<exists>r. html_item env0 (no_counts ''5'') fresh = (None, \<lparr>seen_ids = {KStr ''5''}, yielded = [r]\<rparr>) \<and>
        Likes r = JStr ''N/A'' \<and> Comments r = JStr ''N/A'' \<and> Shares r = JStr ''N/A'') \<and>
   (\<exists>r. api_item env0 (no_counts ''5'') fresh = (None, \<lparr>seen_ids = {KStr ''5''}, yielded = [r]\<rparr>) \<and>
        Likes r = JStr ''N/A'' \<and> Comments r = JStr ''N/A'' \<and> Shares r = JStr ''N/A'')"
proof -
  let ?kvs = "[(''aweme_id'', JStr ''5''), (''id'', JStr ''5''), fx_statsV2, fx_author, fx_video]"
  have item: "no_counts ''5'' = JObj ?kvs" by (simp add: no_counts_def)
  have ids: "map_of ?kvs ''aweme_id'' = Some (JStr ''5'')"
    "py_hash (case map_of ?kvs ''id'' of None \<Rightarrow> JStr ''N/A'' | Some v \<Rightarrow> v) = Inr (KStr ''5'')"
    "py_hash (JStr ''5'') = Inr (KStr ''5'')" "KStr ''5'' \<notin> seen_ids fresh"
    by (simp_all add: fresh_def)
  have counts: "py_get (no_counts ''5'') ''statistics'' (JObj []) = Inr (JObj [])"
    "py_get (no_counts ''5'') ''stats'' (JObj []) = Inr (JObj [])"
    by (simp_all add: sample_defs)
  have req: "required_present env0 ''720'' (no_counts ''5'')"
    "required_present env0 ''480'' (no_counts ''5'')"
    by (simp_all add: required_present_def raises_def field_defs sample_defs)
  from absent_like_counts_give_sentinel [of "no_counts ''5''" ?kvs "JStr ''5''" "KStr ''5''" fresh "[]"
      env0 "no_counts ''5''" ?kvs "KStr ''5''" fresh "[]"]
  show ?thesis using item ids counts req by (simp add: fresh_def)
qed

text \<open>
  C3 as stated fails for the counts read from \<^verbatim>\<open>statsV2\<close>: an item without that entry,
  complete otherwise, raises KeyError in either strategy and nothing is yielded.
\<close>

theorem missing_statsV2_counterexample:
  "item_statsV2 (no_statsV2 ''4'') ''playCount'' = Inl KeyError \<and>
   html_item env0 (no_statsV2 ''4'') fresh = (Some KeyError, fresh) \<and>
   api_item env0 (no_statsV2 ''4'') fresh = (Some KeyError, fresh) \<and>
   emitted (scrape_tiktok_profile env0 (page_with [no_statsV2 ''4''] [[no_statsV2 ''4'']])
      ''https://www.tiktok.com/@u'' None True) = []"
  by (simp add: run_defs loop_defs field_defs sample_defs)


lemma api_record_url:
  assumes "api_record env n item = Inr r" "ID r = JStr ''N/A''"
  shows "video_url r = ''N/A''"
  using assms by (auto simp: api_record_def and_then_eq_Inr api_dict_eq_Inr item_video_url_def)

lemma at_most_one_with_hash:
  "distinct (map f xs) \<Longrightarrow> length (filter (\<lambda>x. f x = v) xs) \<le> 1"
proof (induction xs)
  case Nil
  then show ?case by simp
next
  case (Cons x xs)
  show ?case
  proof (cases "f x = v")
    case True
    from Cons.prems have "f x \<notin> f ` set xs" by simp
    with True have "\<forall>y\<in>set xs. f y \<noteq> v" by blast
    then have "filter (\<lambda>x. f x = v) xs = []"
      by (simp add: filter_empty_conv)
    with True show ?thesis by simp
  next
    case False
    with Cons show ?thesis by simp
  qed
qed

lemma at_most_one_NA:
  assumes "distinct (map (\<lambda>r. py_hash (ID r)) rs)"
  shows "length (filter (\<lambda>r. ID r = JStr ''N/A'') rs) \<le> 1"
proof -
  have "filter (\<lambda>r. ID r = JStr ''N/A'') rs =
        filter (\<lambda>r. ID r = JStr ''N/A'') (filter (\<lambda>r. py_hash (ID r) = Inr (KStr ''N/A'')) rs)"
    by (simp add: conj_commute cong: conj_cong)
  then have "length (filter (\<lambda>r. ID r = JStr ''N/A'') rs) \<le>
             length (filter (\<lambda>r. py_hash (ID r) = Inr (KStr ''N/A'')) rs)"
    by (metis length_filter_le)
  also have "\<dots> \<le> 1" using assms by (rule at_most_one_with_hash)
  finally show ?thesis .
qed

text \<open>
  C9. An intercepted item without \<^verbatim>\<open>id\<close> is not skipped: when \<^verbatim>\<open>'N/A'\<close> is not yet in the
  identity set (and the entries read by subscripting are present, \<^verbatim>\<open>stats\<close> absent or a
  dict), it is yielded with ID \<^verbatim>\<open>'N/A'\<close> and permalink \<^verbatim>\<open>'N/A'\<close>, and \<^verbatim>\<open>'N/A'\<close> enters the
  identity set. Once it is there, an item without \<^verbatim>\<open>id\<close> or with the id \<^verbatim>\<open>'N/A'\<close> is dropped
  without a record and without an exception (its \<^verbatim>\<open>author\<close> being absent or a dict). A run
  yields at most one record with ID \<^verbatim>\<open>'N/A'\<close>.
\<close>

theorem idless_payload_item_gets_sentinel_id:
  "(item = JObj kvs \<and> map_of kvs ''id'' = None \<and> KStr ''N/A'' \<notin> seen_ids st \<and>
    py_get item ''stats'' (JObj []) = Inr (JObj counts) \<and> required_present env ''480'' item
      \<longrightarrow> (\<exists>r. api_item env item st =
                  (None, st\<lparr>yielded := yielded st @ [r],
                             seen_ids := insert (KStr ''N/A'') (seen_ids st)\<rparr>) \<and>
               ID r = JStr ''N/A'' \<and> video_url r = ''N/A'')) \<and>
   (later = JObj later_kvs \<and>
    (map_of later_kvs ''id'' = None \<or> map_of later_kvs ''id'' = Some (JStr ''N/A'')) \<and>
    KStr ''N/A'' \<in> seen_ids st' \<and> \<not> raises (item_author_unique_id later)
      \<longrightarrow> api_item env later st' = (None, st')) \<and>
   length (filter (\<lambda>r. ID r = JStr ''N/A'')
     (emitted (scrape_tiktok_profile env b url storage_state_path headless_debug))) \<le> 1"
proof (intro conjI impI)
  assume a: "item = JObj kvs \<and> map_of kvs ''id'' = None \<and> KStr ''N/A'' \<notin> seen_ids st \<and>
    py_get item ''stats'' (JObj []) = Inr (JObj counts) \<and> required_present env ''480'' item"
  then obtain r where r: "api_record env (length (yielded st)) item = Inr r"
    "ID r = (case map_of kvs ''id'' of None \<Rightarrow> JStr ''N/A'' | Some v \<Rightarrow> v)"
    using api_record_succeeds [of item kvs counts env "length (yielded st)"] by blast
  have id: "ID r = JStr ''N/A''" using r(2) a by simp
  have "api_item env item st =
      (None, st\<lparr>yielded := yielded st @ [r], seen_ids := insert (KStr ''N/A'') (seen_ids st)\<rparr>)"
  proof (rule api_item_emits [OF _ refl _ _ r(1)])
    show "item = JObj kvs" using a by blast
    show "py_hash (case map_of kvs ''id'' of None \<Rightarrow> JStr ''N/A'' | Some v \<Rightarrow> v) = Inr (KStr ''N/A'')"
      using a by simp
    show "KStr ''N/A'' \<notin> seen_ids st" using a by blast
  qed
  with id api_record_url [OF r(1) id]
  show "\<exists>r. api_item env item st =
                  (None, st\<lparr>yielded := yielded st @ [r],
                             seen_ids := insert (KStr ''N/A'') (seen_ids st)\<rparr>) \<and>
               ID r = JStr ''N/A'' \<and> video_url r = ''N/A''"
    by blast
next
  assume d: "later = JObj later_kvs \<and>
    (map_of later_kvs ''id'' = None \<or> map_of later_kvs ''id'' = Some (JStr ''N/A'')) \<and>
    KStr ''N/A'' \<in> seen_ids st' \<and> \<not> raises (item_author_unique_id later)"
  then obtain au where au: "item_author_unique_id later = Inr au"
    unfolding not_raises by blast
  have g: "py_get later ''id'' (JStr ''N/A'') = Inr (JStr ''N/A'')"
    using d by auto
  have c: "\<exists>ct. py_get later ''createTime'' JNull = Inr ct" using d by simp
  then obtain ct where ct: "py_get later ''createTime'' JNull = Inr ct" ..
  have "is_dict later" using d by simp
  then show "api_item env later st' = (None, st')"
    using g ct au d by (simp add: api_item_def emit_if_new_def)
next
  show "length (filter (\<lambda>r. ID r = JStr ''N/A'')
     (emitted (scrape_tiktok_profile env b url storage_state_path headless_debug))) \<le> 1"
    by (rule at_most_one_NA) (rule emitted_distinct)
qed

theorem idless_payload_item_gets_sentinel_id_witness:
  "(\<exists>r. api_item env0 no_id fresh = (None, \<lparr>seen_ids = {KStr ''N/A''}, yielded = [r]\<rparr>) \<and>
        ID r = JStr ''N/A'' \<and> video_url r = ''N/A'') \<and>
   api_item env0 no_id \<lparr>seen_ids = {KStr ''N/A''}, yielded = []\<rparr> =
     (None, \<lparr>seen_ids = {KStr ''N/A''}, yielded = []\<rparr>) \<and>
   map ID (emitted (scrape_tiktok_profile env0 (page_with [] [[no_id, no_id, fx_item ''1'']])
      ''https://www.tiktok.com/@u'' None True)) = [JStr ''N/A'', JStr ''1'']"
proof -
  let ?kvs = "[fx_statsV2, fx_author, fx_video]"
  let ?seen = "\<lparr>seen_ids = {KStr ''N/A''}, yielded = [] :: int video list\<rparr>"
  have item: "no_id = JObj ?kvs" by (simp add: no_id_def)
  have noid: "map_of ?kvs ''id'' = None" by (simp add: sample_defs)
  have new: "KStr ''N/A'' \<notin> seen_ids fresh" by (simp add: fresh_def)
  have old: "KStr ''N/A'' \<in> seen_ids ?seen" by simp
  have counts: "py_get no_id ''stats'' (JObj []) = Inr (JObj [])" by (simp add: sample_defs)
  have req: "required_present env0 ''480'' no_id"
    by (simp add: required_present_def raises_def field_defs sample_defs)
  have au: "\<not> raises (item_author_unique_id no_id)"
    by (simp add: raises_def field_defs sample_defs)
  have run: "map ID (emitted (scrape_tiktok_profile env0 (page_with [] [[no_id, no_id, fx_item ''1'']])
      ''https://www.tiktok.com/@u'' None True)) = [JStr ''N/A'', JStr ''1'']"
    by (simp add: run_defs loop_defs field_defs sample_defs)
  from idless_payload_item_gets_sentinel_id [of no_id ?kvs fresh "[]" env0 no_id ?kvs ?seen
      "page_with [] [[no_id, no_id, fx_item ''1'']]" "''https://www.tiktok.com/@u''" None True]
  show ?thesis using item noid new old counts req au run by (simp add: fresh_def)
qed


lemma for_each_append:
  "for_each body (xs @ ys) st =
     (case for_each body xs st of
        (Some e, s) \<Rightarrow> (Some e, s)
      | (None, s) \<Rightarrow> for_each body ys s)"
  by (induction xs arbitrary: st) (auto split: prod.splits option.splits)

lemma for_each_stops:
  assumes "for_each body before st = (None, st1)" and "body x st1 = (Some e, st1)"
  shows "for_each body (before @ x # rest) st = (Some e, st1)"
  using assms by (simp add: for_each_append)

lemma html_dict_needs_cover:
  assumes "item_video_cover item ''720'' = Inl err"
  shows "\<exists>e. html_dict env n video_id create_time author_unique_id item = Inl e"
proof (cases "html_dict env n video_id create_time author_unique_id item")
  case (Inr r)
  with assms show ?thesis by (auto simp: html_dict_eq_Inr)
qed blast

lemma api_dict_needs_cover:
  assumes "item_video_cover item ''480'' = Inl err"
  shows "\<exists>e. api_dict env n video_id create_time author_unique_id item = Inl e"
proof (cases "api_dict env n video_id create_time author_unique_id item")
  case (Inr r)
  with assms show ?thesis by (auto simp: api_dict_eq_Inr)
qed blast

lemma emit_if_new_raises:
  assumes new: "py_hash video_id \<notin> Inr ` seen_ids st"
    and mk: "\<And>n. \<exists>e. mk n = Inl e"
  shows "\<exists>e. emit_if_new mk video_id st = (Some e, st)"
proof (cases "py_hash video_id")
  case (Inl e)
  then show ?thesis by (simp add: emit_if_new_def)
next
  case (Inr k)
  with new have "k \<notin> seen_ids st" by auto
  moreover from mk obtain e where "mk (length (yielded st)) = Inl e" by blast
  ultimately show ?thesis using Inr by (simp add: emit_if_new_def)
qed

lemma html_item_raises:
  assumes item: "item = JObj kvs" "map_of kvs ''aweme_id'' = Some video_id"
    and new: "py_hash video_id \<notin> Inr ` seen_ids st"
    and cover: "item_video_cover item ''720'' = Inl err"
  shows "\<exists>e. html_item env item st = (Some e, st)"
proof (cases "item_author_unique_id item")
  case (Inl e)
  then show ?thesis using item by (simp add: html_item_def)
next
  case (Inr au)
  define ct where "ct = (case map_of kvs ''createTime'' of None \<Rightarrow> JNull | Some v \<Rightarrow> v)"
  from emit_if_new_raises [OF new, of "\<lambda>n. html_dict env n video_id ct au item"]
    html_dict_needs_cover [OF cover]
  obtain e where "emit_if_new (\<lambda>n. html_dict env n video_id ct au item) video_id st = (Some e, st)"
    by blast
  then show ?thesis using item Inr [unfolded item(1)] by (simp add: html_item_def ct_def)
qed

lemma api_item_raises:
  assumes item: "item = JObj kvs"
    and new: "py_hash (case map_of kvs ''id'' of None \<Rightarrow> JStr ''N/A'' | Some v \<Rightarrow> v)
               \<notin> Inr ` seen_ids st"
    and cover: "item_video_cover item ''480'' = Inl err"
  shows "\<exists>e. api_item env item st = (Some e, st)"
proof (cases "item_author_unique_id item")
  case (Inl e)
  then show ?thesis using item by (simp add: api_item_def)
next
  case (Inr au)
  define ct where "ct = (case map_of kvs ''createTime'' of None \<Rightarrow> JNull | Some v \<Rightarrow> v)"
  define video_id where "video_id = (case map_of kvs ''id'' of None \<Rightarrow> JStr ''N/A'' | Some v \<Rightarrow> v)"
  from emit_if_new_raises [OF new [folded video_id_def], of "\<lambda>n. api_dict env n video_id ct au item"]
    api_dict_needs_cover [OF cover]
  obtain e where "emit_if_new (\<lambda>n. api_dict env n video_id ct au item) video_id st = (Some e, st)"
    by blast
  then show ?thesis using item Inr [unfolded item(1)]
    by (simp add: api_item_def ct_def video_id_def)
qed

text \<open>
  C2, as the code has it. An item with a new identifier and no cover image of the
  strategy's variant raises, and the exception ends the extraction of its source; there
  is no handler inside either loop.
  In Strategy 1 the handler of line 138 catches it: the state after the strategy is the
  state before that item, so the records yielded before stay in the stream, no later
  item of the embedded list is yielded, and the steps after Strategy 1 start from that
  state. In Strategy 2 the exception leaves both loops for the handler of line 220: the
  state is the one before that item, and neither the rest of the payload nor a later
  payload is looked at.
\<close>

theorem missing_cover_ends_the_source:
  "(aweme_list_from_html universal_data = Inr (JList (h_before @ h_item # h_rest)) \<and>
    for_each (html_item env) h_before h_st = (None, h_st1) \<and>
    h_item = JObj h_kvs \<and> map_of h_kvs ''aweme_id'' = Some h_id \<and>
    py_hash h_id \<notin> Inr ` seen_ids h_st1 \<and> item_video_cover h_item ''720'' = Inl h_err
      \<longrightarrow> strategy1 env (Parsed universal_data) h_st = h_st1) \<and>
   (strategy2 env earlier a_st0 = (None, a_st) \<and>
    py_index response_data ''itemList'' = Inr (JList (a_before @ a_item # a_rest)) \<and>
    for_each (api_item env) a_before a_st = (None, a_st1) \<and>
    a_item = JObj a_kvs \<and>
    py_hash (case map_of a_kvs ''id'' of None \<Rightarrow> JStr ''N/A'' | Some v \<Rightarrow> v)
      \<notin> Inr ` seen_ids a_st1 \<and>
    item_video_cover a_item ''480'' = Inl a_err
      \<longrightarrow> (\<exists>e. strategy2 env (earlier @ response_data # later) a_st0 = (Some e, a_st1)))"
proof (intro conjI impI)
  assume h: "aweme_list_from_html universal_data = Inr (JList (h_before @ h_item # h_rest)) \<and>
    for_each (html_item env) h_before h_st = (None, h_st1) \<and>
    h_item = JObj h_kvs \<and> map_of h_kvs ''aweme_id'' = Some h_id \<and>
    py_hash h_id \<notin> Inr ` seen_ids h_st1 \<and> item_video_cover h_item ''720'' = Inl h_err"
  then obtain e where "html_item env h_item h_st1 = (Some e, h_st1)"
    using html_item_raises [of h_item h_kvs h_id h_st1 h_err env] by blast
  with h have "for_each (html_item env) (h_before @ h_item # h_rest) h_st = (Some e, h_st1)"
    by (simp add: for_each_stops)
  with h show "strategy1 env (Parsed universal_data) h_st = h_st1"
    by (simp add: strategy1_def html_block_def)
next
  assume a: "strategy2 env earlier a_st0 = (None, a_st) \<and>
    py_index response_data ''itemList'' = Inr (JList (a_before @ a_item # a_rest)) \<and>
    for_each (api_item env) a_before a_st = (None, a_st1) \<and>
    a_item = JObj a_kvs \<and>
    py_hash (case map_of a_kvs ''id'' of None \<Rightarrow> JStr ''N/A'' | Some v \<Rightarrow> v)
      \<notin> Inr ` seen_ids a_st1 \<and>
    item_video_cover a_item ''480'' = Inl a_err"
  then obtain e where "api_item env a_item a_st1 = (Some e, a_st1)"
    using api_item_raises [of a_item a_kvs a_st1 a_err env] by blast
  with a have items: "for_each (api_item env) (a_before @ a_item # a_rest) a_st = (Some e, a_st1)"
    by (simp add: for_each_stops)
  from a have "py_contains ''itemList'' response_data = Inr True"
    by (cases response_data) (auto split: option.splits)
  with a items have "api_response env response_data a_st = (Some e, a_st1)"
    by (simp add: api_response_def)
  with a have "strategy2 env (earlier @ response_data # later) a_st0 = (Some e, a_st1)"
    by (simp add: strategy2_def for_each_append)
  then show "\<exists>e. strategy2 env (earlier @ response_data # later) a_st0 = (Some e, a_st1)" ..
qed


theorem missing_cover_ends_the_source_witness:
  "item_video_cover (no_cover ''3'') ''720'' = Inl KeyError \<and>
   item_video_cover (no_cover ''3'') ''480'' = Inl KeyError \<and>
   map ID (yielded (strategy1 env0
      (Parsed (embedded_doc [fx_item ''1'', no_cover ''3'', fx_item ''2''])) fresh)) = [JStr ''1''] \<and>
   (\<exists>e. strategy2 env0
      ([payload [fx_item ''1'']] @ payload ([fx_item ''2''] @ no_cover ''3'' # [fx_item ''4''])
         # [payload [fx_item ''5'']]) fresh =
      (Some e, snd (strategy2 env0 [payload [fx_item ''1''], payload [fx_item ''2'']] fresh))) \<and>
   map ID (yielded (snd (strategy2 env0 [payload [fx_item ''1''], payload [fx_item ''2'']] fresh))) =
     [JStr ''1'', JStr ''2'']"
proof -
  let ?kvs = "[(''aweme_id'', JStr ''3''), (''id'', JStr ''3''), fx_statsV2, fx_author,
               (''video'', JObj [(''duration'', JInt 9)])]"
  let ?h1 = "snd (html_item env0 (fx_item ''1'') fresh)"
  let ?a1 = "snd (strategy2 env0 [payload [fx_item ''1'']] fresh)"
  let ?a2 = "snd (strategy2 env0 [payload [fx_item ''1''], payload [fx_item ''2'']] fresh)"
  have item: "no_cover ''3'' = JObj ?kvs" by (simp add: no_cover_def)
  have c720: "item_video_cover (no_cover ''3'') ''720'' = Inl KeyError"
    and c480: "item_video_cover (no_cover ''3'') ''480'' = Inl KeyError"
    by (simp_all add: field_defs sample_defs)
  have doc: "aweme_list_from_html (embedded_doc [fx_item ''1'', no_cover ''3'', fx_item ''2'']) =
      Inr (JList ([fx_item ''1''] @ no_cover ''3'' # [fx_item ''2'']))"
    by (simp add: aweme_list_from_html_def embedded_doc_def)
  have hbefore: "for_each (html_item env0) [fx_item ''1''] fresh = (None, ?h1)"
    by (simp add: loop_defs field_defs sample_defs)
  have hid: "map_of ?kvs ''aweme_id'' = Some (JStr ''3'')" by simp
  have hnew: "py_hash (JStr ''3'') \<notin> Inr ` seen_ids ?h1"
    by (simp add: loop_defs field_defs sample_defs)
  have earlier: "strategy2 env0 [payload [fx_item ''1'']] fresh = (None, ?a1)"
    by (simp add: loop_defs field_defs sample_defs)
  have resp: "py_index (payload ([fx_item ''2''] @ no_cover ''3'' # [fx_item ''4''])) ''itemList'' =
      Inr (JList ([fx_item ''2''] @ no_cover ''3'' # [fx_item ''4'']))"
    by (simp add: payload_def)
  have abefore: "for_each (api_item env0) [fx_item ''2''] ?a1 = (None, ?a2)"
    by (simp add: loop_defs field_defs sample_defs)
  have anew: "py_hash (case map_of ?kvs ''id'' of None \<Rightarrow> JStr ''N/A'' | Some v \<Rightarrow> v)
      \<notin> Inr ` seen_ids ?a2"
    by (simp add: loop_defs field_defs sample_defs)
  have ids1: "map ID (yielded ?h1) = [JStr ''1'']"
    by (simp add: loop_defs field_defs sample_defs)
  have ids2: "map ID (yielded ?a2) = [JStr ''1'', JStr ''2'']"
    by (simp add: loop_defs field_defs sample_defs)
  note inst = missing_cover_ends_the_source [of
      "embedded_doc [fx_item ''1'', no_cover ''3'', fx_item ''2'']" "[fx_item ''1'']" "no_cover ''3''"
      "[fx_item ''2'']" env0 fresh ?h1 ?kvs "JStr ''3''" KeyError
      "[payload [fx_item ''1'']]" fresh ?a1
      "payload ([fx_item ''2''] @ no_cover ''3'' # [fx_item ''4''])" "[fx_item ''2'']" "no_cover ''3''"
      "[fx_item ''4'']" ?a2 ?kvs KeyError "[payload [fx_item ''5'']]"]
  have h: "strategy1 env0 (Parsed (embedded_doc [fx_item ''1'', no_cover ''3'', fx_item ''2''])) fresh = ?h1"
    using inst doc hbefore item hid hnew c720 by blast
  have a: "\<exists>e. strategy2 env0
      ([payload [fx_item ''1'']] @ payload ([fx_item ''2''] @ no_cover ''3'' # [fx_item ''4''])
         # [payload [fx_item ''5'']]) fresh = (Some e, ?a2)"
    using inst earlier resp abefore item anew c480 by blast
  show ?thesis using c720 c480 h a ids1 ids2 by simp
qed

text \<open>
  C2 as stated fails: items 2 and 4 are yielded when they are alone, and they are not
  when an item without cover image stands before them in the same source.
\<close>

theorem missing_cover_counterexample:
  "item_video_cover (no_cover ''3'') ''720'' = Inl KeyError \<and>
   map ID (emitted (scrape_tiktok_profile env0 (page_with [fx_item ''2''] [[fx_item ''4'']])
      ''https://www.tiktok.com/@u'' None True)) = [JStr ''2'', JStr ''4''] \<and>
   emitted (scrape_tiktok_profile env0 (page_with [no_cover ''3'', fx_item ''2''] [])
      ''https://www.tiktok.com/@u'' None True) = [] \<and>
   emitted (scrape_tiktok_profile env0 (page_with [] [[no_cover ''3'', fx_item ''4'']])
      ''https://www.tiktok.com/@u'' None True) = []"
  by (simp add: run_defs loop_defs field_defs sample_defs)

subsection \<open>No identifier twice\<close>



end
